theory Spec2Isabelle
  imports Complex_Main "HOL-Library.Sublist"
begin

section \<open>Python values handled by \<open>backend/app.py\<close>\<close>

text \<open>
  The handler works on decoded JSON: the request body (\<open>await req.json()\<close>) and the
  bodies of the platform's answers (\<open>r.json()\<close>). A decoded JSON document is one of
  Python's \<open>None\<close>, \<open>bool\<close>, \<open>int\<close>, \<open>float\<close>, \<open>str\<close>, \<open>list\<close> and \<open>dict\<close>
  (with \<open>str\<close> keys). A float is kept as the rational it denotes, or one of the three
  non-finite values the decoder accepts; no float arithmetic is performed by the handler.
  A dict is an association list in insertion order, looked up with \<open>map_of\<close>.
\<close>

datatype pyfloat = Finite rat | NaN | PosInf | NegInf

datatype pyval =
    PNone
  | PBool bool
  | PInt int
  | PFloat pyfloat
  | PStr string
  | PList "pyval list"
  | PDict "(string \<times> pyval) list"

text \<open>
  Every exception the handler can raise or meet. \<open>HTTPException\<close> carries the status
  code and the detail, as in the source; the framework turns it into a response with that
  status and any other uncaught exception into a 500 response.
  \<open>HTTPStatusError\<close> is what \<open>r.raise_for_status()\<close> raises, \<open>TransportError\<close> stands
  for any exception of the HTTP client while sending (connection refused, timeout, ...),
  \<open>JSONDecodeError\<close> for \<open>r.json()\<close> on a body that is not JSON.
\<close>

datatype exn =
    HTTPException int string
  | AttributeError
  | TypeError
  | ValueError
  | KeyError
  | OverflowError
  | JSONDecodeError
  | HTTPStatusError
  | TransportError

definition bind_r :: "exn + 'a \<Rightarrow> ('a \<Rightarrow> exn + 'b) \<Rightarrow> exn + 'b" where
  "bind_r m f = (case m of Inl e \<Rightarrow> Inl e | Inr a \<Rightarrow> f a)"

text \<open>Truth value of an object, as \<open>if x\<close>, \<open>not x\<close>, \<open>all([...])\<close> and \<open>x or y\<close> test it.\<close>

fun truthy :: "pyval \<Rightarrow> bool" where
  "truthy PNone = False"
| "truthy (PBool b) = b"
| "truthy (PInt i) = (i \<noteq> 0)"
| "truthy (PFloat f) = (f \<noteq> Finite 0)"
| "truthy (PStr s) = (s \<noteq> [])"
| "truthy (PList xs) = (xs \<noteq> [])"
| "truthy (PDict kv) = (kv \<noteq> [])"

text \<open>\<open>d.get(k, default)\<close>: only a dict has the method.\<close>

fun py_get :: "pyval \<Rightarrow> string \<Rightarrow> pyval \<Rightarrow> exn + pyval" where
  "py_get (PDict kv) k d = Inr (case map_of kv k of None \<Rightarrow> d | Some v \<Rightarrow> v)"
| "py_get _ k d = Inl AttributeError"

text \<open>\<open>v[k]\<close> with a \<open>str\<close> key: \<open>KeyError\<close> on a dict without the key, \<open>TypeError\<close> on
  anything that is not a dict (a list or a str wants an integer index, the others are not
  subscriptable).\<close>

fun py_getitem :: "pyval \<Rightarrow> string \<Rightarrow> exn + pyval" where
  "py_getitem (PDict kv) k = (case map_of kv k of None \<Rightarrow> Inl KeyError | Some v \<Rightarrow> Inr v)"
| "py_getitem _ k = Inl TypeError"

text \<open>\<open>for x in v\<close>: a list gives its elements, a dict its keys, a str its characters (each
  a str of length one); nothing else is iterable.\<close>

fun py_iter :: "pyval \<Rightarrow> exn + pyval list" where
  "py_iter (PList xs) = Inr xs"
| "py_iter (PDict kv) = Inr (map (\<lambda>(k, v). PStr k) kv)"
| "py_iter (PStr s) = Inr (map (\<lambda>c. PStr [c]) s)"
| "py_iter _ = Inl TypeError"

subsection \<open>\<open>int(x)\<close>\<close>

text \<open>
  \<open>int\<close> of a str, base ten. A character is a code point below 256. The code points
  above 127 that are whitespace (U+0085 and U+00A0) are first turned into spaces; then
  the ASCII whitespace (space, tab, line feed, vertical tab, form feed, carriage return)
  at both ends is skipped. The separators U+001C to U+001F are not skipped. One sign is
  allowed, then at least one digit, with single underscores allowed between digits. More
  than 4300 digits are refused (the interpreter's default limit).
\<close>

definition is_space :: "char \<Rightarrow> bool" where
  "is_space c = (c \<in> set [CHR '' '', CHR 0x09, CHR 0x0A, CHR 0x0B, CHR 0x0C, CHR 0x0D,
                           CHR 0x85, CHR 0xA0])"

definition strip :: "string \<Rightarrow> string" where
  "strip s = rev (dropWhile is_space (rev (dropWhile is_space s)))"

definition digit_of :: "char \<Rightarrow> nat option" where
  "digit_of c = (let n = (of_char c :: nat) in if 48 \<le> n \<and> n \<le> 57 then Some (n - 48) else None)"

fun parse_digits :: "nat \<Rightarrow> string \<Rightarrow> nat option" where
  "parse_digits acc [] = Some acc"
| "parse_digits acc [c] =
     (case digit_of c of None \<Rightarrow> None | Some v \<Rightarrow> Some (10 * acc + v))"
| "parse_digits acc (c # d # ds) =
     (if c = CHR ''_''
      then (case digit_of d of None \<Rightarrow> None | Some v \<Rightarrow> parse_digits (10 * acc + v) ds)
      else (case digit_of c of None \<Rightarrow> None | Some v \<Rightarrow> parse_digits (10 * acc + v) (d # ds)))"

definition max_str_digits :: nat where
  "max_str_digits = 4300"

definition parse_unsigned :: "string \<Rightarrow> nat option" where
  "parse_unsigned s =
     (if max_str_digits < length (filter (\<lambda>c. c \<noteq> CHR ''_'') s) then None
      else (case s of [] \<Rightarrow> None
            | c # cs \<Rightarrow>
                (case digit_of c of None \<Rightarrow> None | Some v \<Rightarrow> parse_digits v cs)))"

definition int_of_str :: "string \<Rightarrow> int option" where
  "int_of_str s =
     (let t = strip s in
      case t of
        [] \<Rightarrow> None
      | c # r \<Rightarrow>
          if c = CHR ''-'' then map_option (\<lambda>n. - int n) (parse_unsigned r)
          else if c = CHR ''+'' then map_option int (parse_unsigned r)
          else map_option int (parse_unsigned t))"

text \<open>\<open>int(x)\<close> on a decoded JSON value: a float is truncated towards zero, and a
  non-finite one is refused; \<open>None\<close>, lists and dicts are a \<open>TypeError\<close>.\<close>

fun py_int :: "pyval \<Rightarrow> exn + int" where
  "py_int PNone = Inl TypeError"
| "py_int (PBool b) = Inr (if b then 1 else 0)"
| "py_int (PInt i) = Inr i"
| "py_int (PFloat (Finite q)) = Inr (if 0 \<le> q then \<lfloor>q\<rfloor> else \<lceil>q\<rceil>)"
| "py_int (PFloat NaN) = Inl ValueError"
| "py_int (PFloat PosInf) = Inl OverflowError"
| "py_int (PFloat NegInf) = Inl OverflowError"
| "py_int (PStr s) = (case int_of_str s of None \<Rightarrow> Inl ValueError | Some i \<Rightarrow> Inr i)"
| "py_int (PList xs) = Inl TypeError"
| "py_int (PDict kv) = Inl TypeError"

subsection \<open>\<open>str.replace\<close>, \<open>str.lower\<close>, \<open>in\<close>\<close>

text \<open>\<open>s.replace(old, new)\<close>: the occurrences of \<open>old\<close> are replaced from the left, without
  overlap; an empty \<open>old\<close> matches before every character and at the end.\<close>

fun str_replace :: "string \<Rightarrow> string \<Rightarrow> string \<Rightarrow> string" where
  "str_replace [] new s = new @ concat (map (\<lambda>c. c # new) s)"
| "str_replace (a # as) new [] = []"
| "str_replace (a # as) new (c # cs) =
     (if prefix (a # as) (c # cs)
      then new @ str_replace (a # as) new (drop (length as) cs)
      else c # str_replace (a # as) new cs)"

text \<open>Line 190 of the source: \<open>repo = task.replace("/", "-")\<close>.\<close>

definition repo_name :: "string \<Rightarrow> string" where
  "repo_name task = str_replace ''/'' ''-'' task"

text \<open>\<open>s.lower()\<close> on the code points below 256 (the capitals are A to Z and
  U+00C0 to U+00DE without the multiplication sign U+00D7, each 32 below its small
  letter), and \<open>sub in s\<close>.\<close>

definition lower_char :: "char \<Rightarrow> char" where
  "lower_char c =
     (let n = (of_char c :: nat)
      in if (65 \<le> n \<and> n \<le> 90) \<or> (192 \<le> n \<and> n \<le> 214) \<or> (216 \<le> n \<and> n \<le> 222)
         then char_of (n + 32) else c)"

definition lower :: "string \<Rightarrow> string" where
  "lower s = map lower_char s"

fun contains :: "string \<Rightarrow> string \<Rightarrow> bool" where
  "contains sub [] = (sub = [])"
| "contains sub (c # cs) = (prefix sub (c # cs) \<or> contains sub cs)"

subsection \<open>What is taken from the Python runtime\<close>

text \<open>
  Three things are parameters of the model: \<open>base64.b64decode\<close> on a str (\<open>None\<close>
  where it raises; both of its exceptions are \<open>ValueError\<close>s), the formatting of a value
  that is not a str inside an f-string (a str is formatted as itself), and whether the
  framework's encoder gets through a returned body before it is written as JSON (it does
  not when the nesting is deeper than the interpreter's recursion limit allows).
\<close>

record runtime =
  b64decode :: "string \<Rightarrow> string option"
  format_other :: "pyval \<Rightarrow> string"
  encodes :: "pyval \<Rightarrow> bool"

definition py_format :: "runtime \<Rightarrow> pyval \<Rightarrow> string" where
  "py_format rt v = (case v of PStr s \<Rightarrow> s | _ \<Rightarrow> format_other rt v)"

section \<open>Configuration, platform and trace\<close>

text \<open>The three environment variables read at import time; \<open>None\<close> when unset.\<close>

record config =
  OWNER :: "string option"
  GH_TOKEN :: "string option"
  SHARED_SECRET :: "string option"

definition env_val :: "string option \<Rightarrow> pyval" where
  "env_val x = (case x of None \<Rightarrow> PNone | Some s \<Rightarrow> PStr s)"

text \<open>
  The bytes of a published file. The four fixed texts are the constants of the source,
  kept by name (the licence is formatted with the year and the owner); an attachment is
  the bytes \<open>_parse_data_uri\<close> decoded.
\<close>

datatype content =
    MIT_TEXT int pyval
  | README_MD
  | PAGES_WORKFLOW
  | INDEX_HTML
  | Decoded string

text \<open>
  The HTTP requests the handler sends, by their varying arguments. The platform requests
  all carry \<open>_headers()\<close>; \<open>PutFile owner repo path content\<close> is the PUT on
  \<open>/repos/{owner}/{repo}/contents/{path}\<close> with message \<open>add {path}\<close> and branch
  \<open>main\<close>; \<open>CreateRepo repo\<close> is the POST on \<open>/user/repos\<close> (the owner is not sent);
  \<open>PostCallback url payload\<close> is the POST of the payload to the evaluation URL.
\<close>

datatype call =
    GetUser
  | CreateRepo string
  | PutFile pyval string pyval content
  | GetPages pyval string
  | PostCallback pyval pyval

text \<open>What the handler does to the outside, in order: requests and \<open>time.sleep\<close>.\<close>

datatype event = Call call | Sleep nat

type_synonym trace = "event list"

text \<open>An answer: its status code, its body as text, and the body decoded as JSON
  (\<open>None\<close> when \<open>r.json()\<close> raises).\<close>

record response =
  status_code :: int
  rtext :: string
  rjson :: "pyval option"

datatype outcome = Raises | Responds response

text \<open>The outside world answers a request knowing everything that happened before.\<close>

type_synonym world = "trace \<Rightarrow> call \<Rightarrow> outcome"

type_synonym 'a io = "trace \<Rightarrow> (exn + 'a) \<times> trace"

definition bind_io :: "'a io \<Rightarrow> ('a \<Rightarrow> 'b io) \<Rightarrow> 'b io" where
  "bind_io m f tr = (case m tr of (Inl e, tr') \<Rightarrow> (Inl e, tr') | (Inr a, tr') \<Rightarrow> f a tr')"

definition return_io :: "exn + 'a \<Rightarrow> 'a io" where
  "return_io r tr = (r, tr)"

definition request :: "world \<Rightarrow> call \<Rightarrow> trace \<Rightarrow> outcome \<times> trace" where
  "request w c tr = (w tr c, tr @ [Call c])"

definition sleep :: "nat \<Rightarrow> trace \<Rightarrow> trace" where
  "sleep d tr = tr @ [Sleep d]"

text \<open>\<open>r.raise_for_status()\<close> raises unless the status is a 2xx; \<open>r.json()\<close>.\<close>

definition raise_for_status :: "response \<Rightarrow> exn + unit" where
  "raise_for_status r =
     (if 200 \<le> status_code r \<and> status_code r \<le> 299 then Inr () else Inl HTTPStatusError)"

definition json :: "response \<Rightarrow> exn + pyval" where
  "json r = (case rjson r of None \<Rightarrow> Inl JSONDecodeError | Some v \<Rightarrow> Inr v)"

section \<open>The helpers of the handler\<close>

definition need_env :: "config \<Rightarrow> exn + unit" where
  "need_env cfg =
     (if \<not> truthy (env_val (GH_TOKEN cfg)) \<or> \<not> truthy (env_val (SHARED_SECRET cfg))
      then Inl (HTTPException 500 ''Missing GH_TOKEN or SHARED_SECRET'')
      else Inr ())"

text \<open>\<open>re.match(r"^data:[^;]+;base64,(.*)$", uri)\<close>, giving group 1. \<open>[^;]+\<close> takes
  everything up to the first \<open>;\<close> and needs one character at least; \<open>.\<close> does not match
  a newline, and \<open>$\<close> matches at the end or before a newline that ends the string.\<close>

definition strip_prefix :: "string \<Rightarrow> string \<Rightarrow> string option" where
  "strip_prefix p s = (if prefix p s then Some (drop (length p) s) else None)"

definition match_data_uri :: "string \<Rightarrow> string option" where
  "match_data_uri uri =
     (case strip_prefix ''data:'' uri of
        None \<Rightarrow> None
      | Some r \<Rightarrow>
          (let m = takeWhile (\<lambda>c. c \<noteq> CHR '';'') r;
               rest = dropWhile (\<lambda>c. c \<noteq> CHR '';'') r
           in if m = [] then None
              else (case strip_prefix '';base64,'' rest of
                      None \<Rightarrow> None
                    | Some p \<Rightarrow>
                        (let g = takeWhile (\<lambda>c. c \<noteq> CHR 0x0A) p;
                             t = dropWhile (\<lambda>c. c \<noteq> CHR 0x0A) p
                         in if t = [] \<or> t = [CHR 0x0A] then Some g else None))))"

definition parse_data_uri :: "runtime \<Rightarrow> pyval \<Rightarrow> exn + string" where
  "parse_data_uri rt uri =
     (case uri of
        PStr s \<Rightarrow>
          (case match_data_uri s of
             None \<Rightarrow> Inl ValueError
           | Some g \<Rightarrow> (case b64decode rt g of None \<Rightarrow> Inl ValueError | Some bs \<Rightarrow> Inr bs))
      | _ \<Rightarrow> Inl TypeError)"

definition gh_owner :: "config \<Rightarrow> world \<Rightarrow> pyval io" where
  "gh_owner cfg w tr =
     (if truthy (env_val (OWNER cfg)) then (Inr (env_val (OWNER cfg)), tr)
      else (case request w GetUser tr of
              (Raises, tr') \<Rightarrow> (Inl TransportError, tr')
            | (Responds r, tr') \<Rightarrow>
                (bind_r (raise_for_status r) (\<lambda>_.
                 bind_r (json r) (\<lambda>j. py_getitem j ''login'')), tr')))"

definition gh_create_repo :: "world \<Rightarrow> pyval \<Rightarrow> string \<Rightarrow> unit io" where
  "gh_create_repo w owner repo tr =
     (case request w (CreateRepo repo) tr of
        (Raises, tr') \<Rightarrow> (Inl TransportError, tr')
      | (Responds r, tr') \<Rightarrow>
          if status_code r \<noteq> 201 \<and> \<not> contains ''exists'' (lower (rtext r))
          then (Inl (HTTPException 500 (''Create repo failed: '' @ rtext r)), tr')
          else (Inr (), tr'))"

definition gh_put_file :: "world \<Rightarrow> pyval \<Rightarrow> string \<Rightarrow> pyval \<Rightarrow> content \<Rightarrow> pyval io" where
  "gh_put_file w owner repo path c tr =
     (case request w (PutFile owner repo path c) tr of
        (Raises, tr') \<Rightarrow> (Inl TransportError, tr')
      | (Responds r, tr') \<Rightarrow>
          (bind_r (raise_for_status r) (\<lambda>_.
           bind_r (json r) (\<lambda>j.
           bind_r (py_getitem j ''commit'') (\<lambda>cm. py_getitem cm ''sha''))), tr'))"

definition gh_pages_url :: "world \<Rightarrow> pyval \<Rightarrow> string \<Rightarrow> pyval io" where
  "gh_pages_url w owner repo tr =
     (case request w (GetPages owner repo) tr of
        (Raises, tr') \<Rightarrow> (Inl TransportError, tr')
      | (Responds r, tr') \<Rightarrow>
          (if status_code r = 200 then bind_r (json r) (\<lambda>j. py_get j ''html_url'' PNone)
           else Inr PNone, tr'))"

text \<open>\<open>_post_with_backoff\<close>: the loop over \<open>range(6)\<close>, with the attempts left and the
  current delay. An exception of the attempt is swallowed; the sleep follows every attempt
  that did not return.\<close>

fun post_loop :: "world \<Rightarrow> pyval \<Rightarrow> pyval \<Rightarrow> nat \<Rightarrow> nat \<Rightarrow> trace \<Rightarrow> bool \<times> trace" where
  "post_loop w url payload 0 delay tr = (False, tr)"
| "post_loop w url payload (Suc n) delay tr =
     (case request w (PostCallback url payload) tr of
        (Raises, tr') \<Rightarrow> post_loop w url payload n (delay * 2) (sleep delay tr')
      | (Responds r, tr') \<Rightarrow>
          if status_code r = 200 then (True, tr')
          else post_loop w url payload n (delay * 2) (sleep delay tr'))"

definition post_with_backoff :: "world \<Rightarrow> pyval \<Rightarrow> pyval \<Rightarrow> trace \<Rightarrow> bool \<times> trace" where
  "post_with_backoff w url payload tr = post_loop w url payload 6 1 tr"

section \<open>The handler\<close>

text \<open>Lines 178 to 187: the configuration guard, the body, the secret, the fields.\<close>

record fields =
  email :: pyval
  task :: pyval
  nonce :: pyval
  evaluation_url :: pyval
  round_idx :: int
  attachments :: pyval

definition read_fields :: "pyval \<Rightarrow> exn + fields" where
  "read_fields data =
     bind_r (py_get data ''email'' PNone) (\<lambda>e.
     bind_r (py_get data ''task'' PNone) (\<lambda>t.
     bind_r (py_get data ''nonce'' PNone) (\<lambda>n.
     bind_r (py_get data ''evaluation_url'' PNone) (\<lambda>u.
     bind_r (py_get data ''round'' (PInt 1)) (\<lambda>r.
     bind_r (py_int r) (\<lambda>i.
     bind_r (py_get data ''attachments'' (PList [])) (\<lambda>a.
     if \<not> (truthy e \<and> truthy t \<and> truthy n \<and> truthy u)
     then Inl (HTTPException 400 ''Missing required fields'')
     else Inr \<lparr>email = e, task = t, nonce = n, evaluation_url = u,
               round_idx = i, attachments = a\<rparr>)))))))"

text \<open>The body is \<open>None\<close> when it is not JSON (\<open>await req.json()\<close> raises).\<close>

definition validate :: "config \<Rightarrow> pyval option \<Rightarrow> exn + fields" where
  "validate cfg body =
     bind_r (need_env cfg) (\<lambda>_.
     bind_r (case body of None \<Rightarrow> Inl JSONDecodeError | Some d \<Rightarrow> Inr d) (\<lambda>data.
     bind_r (py_get data ''secret'' PNone) (\<lambda>secret.
     if secret \<noteq> env_val (SHARED_SECRET cfg) then Inl (HTTPException 403 ''Invalid secret'')
     else read_fields data)))"

text \<open>Lines 194 to 204: the file list, and the attachments that decode.\<close>

definition fixed_files :: "int \<Rightarrow> pyval \<Rightarrow> (pyval \<times> content) list" where
  "fixed_files year owner =
     [(PStr ''LICENSE'', MIT_TEXT year owner),
      (PStr ''README.md'', README_MD),
      (PStr ''.github/workflows/pages.yml'', PAGES_WORKFLOW),
      (PStr ''index.html'', INDEX_HTML)]"

definition decode_attachment :: "runtime \<Rightarrow> pyval \<Rightarrow> exn + (pyval \<times> content)" where
  "decode_attachment rt att =
     bind_r (py_getitem att ''name'') (\<lambda>n.
     bind_r (py_getitem att ''url'') (\<lambda>u.
     bind_r (parse_data_uri rt u) (\<lambda>bs. Inr (n, Decoded bs))))"

fun add_attachments ::
  "runtime \<Rightarrow> (pyval \<times> content) list \<Rightarrow> pyval list \<Rightarrow> (pyval \<times> content) list" where
  "add_attachments rt files [] = files"
| "add_attachments rt files (att # atts) =
     (case decode_attachment rt att of
        Inr f \<Rightarrow> add_attachments rt (files @ [f]) atts
      | Inl e \<Rightarrow> add_attachments rt files atts)"

definition build_files :: "runtime \<Rightarrow> int \<Rightarrow> pyval \<Rightarrow> pyval \<Rightarrow> exn + (pyval \<times> content) list" where
  "build_files rt year owner atts =
     bind_r (py_iter atts) (\<lambda>xs. Inr (add_attachments rt (fixed_files year owner) xs))"

text \<open>Lines 206 to 208: one write per file, the last commit kept.\<close>

fun put_files :: "world \<Rightarrow> pyval \<Rightarrow> string \<Rightarrow> (pyval \<times> content) list \<Rightarrow> pyval \<Rightarrow> pyval io" where
  "put_files w owner repo [] last_commit tr = (Inr last_commit, tr)"
| "put_files w owner repo ((p, c) # files) last_commit tr =
     (case gh_put_file w owner repo p c tr of
        (Inl e, tr') \<Rightarrow> (Inl e, tr')
      | (Inr sha, tr') \<Rightarrow> put_files w owner repo files sha tr')"

text \<open>Lines 210 to 214: the polls left, and the value of \<open>pages_url\<close> so far.\<close>

fun poll_pages :: "world \<Rightarrow> pyval \<Rightarrow> string \<Rightarrow> nat \<Rightarrow> pyval \<Rightarrow> pyval io" where
  "poll_pages w owner repo 0 pages_url tr = (Inr pages_url, tr)"
| "poll_pages w owner repo (Suc n) pages_url tr =
     (case gh_pages_url w owner repo tr of
        (Inl e, tr') \<Rightarrow> (Inl e, tr')
      | (Inr u, tr') \<Rightarrow>
          if truthy u then (Inr u, tr') else poll_pages w owner repo n u (sleep 5 tr'))"

text \<open>Lines 216 to 226: the payload, its delivery, the response.\<close>

definition make_payload ::
  "runtime \<Rightarrow> fields \<Rightarrow> pyval \<Rightarrow> string \<Rightarrow> pyval \<Rightarrow> pyval \<Rightarrow> (string \<times> pyval) list" where
  "make_payload rt f owner repo last_commit pages_url =
     [(''email'', email f),
      (''task'', task f),
      (''round'', PInt (round_idx f)),
      (''nonce'', nonce f),
      (''repo_url'', PStr (''https://github.com/'' @ py_format rt owner @ ''/'' @ repo)),
      (''commit_sha'', last_commit),
      (''pages_url'',
         if truthy pages_url then pages_url
         else PStr (''https://'' @ py_format rt owner @ ''.github.io/'' @ repo @ ''/''))]"

definition report ::
  "runtime \<Rightarrow> world \<Rightarrow> fields \<Rightarrow> pyval \<Rightarrow> string \<Rightarrow> pyval \<Rightarrow> pyval \<Rightarrow> pyval io" where
  "report rt w f owner repo last_commit pages_url tr =
     (let payload = make_payload rt f owner repo last_commit pages_url;
          (delivered, tr') = post_with_backoff w (evaluation_url f) (PDict payload) tr
      in (Inr (PDict ((''ok'', PBool True) # payload)), tr'))"

text \<open>Lines 193 to 226, once the repository is there.\<close>

definition publish :: "runtime \<Rightarrow> world \<Rightarrow> int \<Rightarrow> fields \<Rightarrow> pyval \<Rightarrow> string \<Rightarrow> pyval io" where
  "publish rt w year f owner repo =
     bind_io (return_io (build_files rt year owner (attachments f))) (\<lambda>files.
     bind_io (put_files w owner repo files (PStr [])) (\<lambda>last_commit.
     bind_io (poll_pages w owner repo 12 PNone) (\<lambda>pages_url.
     report rt w f owner repo last_commit pages_url)))"

text \<open>\<open>task.replace("/", "-")\<close> on whatever the request gave as task.\<close>

definition repo_of :: "pyval \<Rightarrow> exn + string" where
  "repo_of t = (case t of PStr s \<Rightarrow> Inr (repo_name s) | _ \<Rightarrow> Inl AttributeError)"

definition deploy :: "runtime \<Rightarrow> config \<Rightarrow> world \<Rightarrow> int \<Rightarrow> fields \<Rightarrow> pyval io" where
  "deploy rt cfg w year f =
     bind_io (gh_owner cfg w) (\<lambda>owner.
     bind_io (return_io (repo_of (task f))) (\<lambda>repo.
     bind_io (gh_create_repo w owner repo) (\<lambda>_.
     publish rt w year f owner repo)))"

text \<open>\<open>handle\<close>: the result (an exception or the response body) and everything it did.
  The year is what \<open>time.gmtime()\<close> gives.\<close>

definition handle ::
  "runtime \<Rightarrow> config \<Rightarrow> world \<Rightarrow> int \<Rightarrow> pyval option \<Rightarrow> (exn + pyval) \<times> trace" where
  "handle rt cfg w year body =
     (case validate cfg body of
        Inl e \<Rightarrow> (Inl e, [])
      | Inr f \<Rightarrow> deploy rt cfg w year f [])"

text \<open>
  What \<open>json.dumps(..., allow_nan=False)\<close>, with which the framework writes a returned
  body, does not refuse: it raises on a float that is not finite, and on an int of more
  than 4300 digits.
\<close>

definition max_json_int :: int where
  "max_json_int = 10 ^ 4300"

fun serialisable :: "pyval \<Rightarrow> bool" where
  "serialisable PNone = True"
| "serialisable (PBool b) = True"
| "serialisable (PInt i) = (\<bar>i\<bar> < max_json_int)"
| "serialisable (PFloat f) = (case f of Finite q \<Rightarrow> True | _ \<Rightarrow> False)"
| "serialisable (PStr s) = True"
| "serialisable (PList xs) = list_all serialisable xs"
| "serialisable (PDict kv) = list_all serialisable (map snd kv)"

text \<open>The status of the HTTP response the framework sends: that of an \<open>HTTPException\<close>,
  500 for any other exception, and for a returned body 200 when the encoder gets through
  it and it can be written as JSON, 500 when not.\<close>

fun response_status :: "runtime \<Rightarrow> exn + pyval \<Rightarrow> int" where
  "response_status rt (Inr body) = (if encodes rt body \<and> serialisable body then 200 else 500)"
| "response_status rt (Inl (HTTPException code detail)) = code"
| "response_status rt (Inl e) = 500"

section \<open>The glossary's data URI\<close>

text \<open>
  The specification's glossary calls a data URI a string of the form
  \<open>data:<mediatype>;base64,<payload>\<close>. This predicate follows those words, to be
  compared with what \<open>_parse_data_uri\<close> accepts: the string starts with \<open>data:\<close>,
  and somewhere after it stands \<open>;base64,\<close> followed by a payload that decodes. The
  media type is whatever stands between; it may carry parameters, as in
  \<open>text/plain;charset=utf-8\<close>.
\<close>

definition is_data_uri :: "runtime \<Rightarrow> string \<Rightarrow> bool" where
  "is_data_uri rt s =
     (case strip_prefix ''data:'' s of
        None \<Rightarrow> False
      | Some r \<Rightarrow>
          list_ex (\<lambda>i. prefix '';base64,'' (drop i r) \<and> b64decode rt (drop (i + 8) r) \<noteq> None)
            [0..<Suc (length r)])"

text \<open>
  What \<open>_parse_data_uri\<close> will be shown to accept, said without the parser: the value is
  a str \<open>data:<type>;base64,<payload>\<close>, possibly ended by one newline, with a non-empty
  type that has no \<open>;\<close> and a payload that has no newline and that \<open>b64decode\<close> turns
  into the bytes \<open>bs\<close>.
\<close>

definition accepted_data_uri :: "runtime \<Rightarrow> pyval \<Rightarrow> string \<Rightarrow> bool" where
  "accepted_data_uri rt u bs =
     (\<exists>m g nl. u = PStr (''data:'' @ m @ '';base64,'' @ g @ nl) \<and> m \<noteq> []
        \<and> CHR '';'' \<notin> set m \<and> CHR 0x0A \<notin> set g \<and> (nl = [] \<or> nl = [CHR 0x0A])
        \<and> b64decode rt g = Some bs)"

section \<open>A sample deployment\<close>

text \<open>
  Concrete values on which the theorems below are run: a runtime that decodes one base64
  text, a configured server, and a platform that accepts every request, reports the pages
  URL from the \<open>pages_at\<close>-th poll on and accepts the callback from the
  \<open>callback_at\<close>-th attempt on (the earlier polls answer 404, the earlier callback
  attempts fail to connect). A write answers with the path as commit identifier.
\<close>

definition demo_runtime :: runtime where
  "demo_runtime = \<lparr>b64decode = (\<lambda>s. if s = ''aGk='' then Some ''hi'' else None),
                    format_other = (\<lambda>v. ''?''),
                    encodes = (\<lambda>v. True)\<rparr>"

text \<open>A runtime whose decoder skips newlines, as the lenient \<open>b64decode\<close> does.\<close>

definition lenient_runtime :: runtime where
  "lenient_runtime =
     \<lparr>b64decode = (\<lambda>s. if filter (\<lambda>c. c \<noteq> CHR 0x0A) s = ''aGk='' then Some ''hi'' else None),
      format_other = (\<lambda>v. ''?''),
      encodes = (\<lambda>v. True)\<rparr>"

definition demo_config :: config where
  "demo_config =
     \<lparr>OWNER = Some ''octo'', GH_TOKEN = Some ''tok'', SHARED_SECRET = Some ''s3cret''\<rparr>"

definition is_pages :: "event \<Rightarrow> bool" where
  "is_pages e = (case e of Call (GetPages ow r) \<Rightarrow> True | _ \<Rightarrow> False)"

definition is_callback :: "event \<Rightarrow> bool" where
  "is_callback e = (case e of Call (PostCallback u p) \<Rightarrow> True | _ \<Rightarrow> False)"

definition demo_world :: "nat \<Rightarrow> nat \<Rightarrow> world" where
  "demo_world pages_at callback_at tr c =
     (case c of
        GetUser \<Rightarrow>
          Responds \<lparr>status_code = 200, rtext = [],
            rjson = Some (PDict [(''login'', PStr ''octo'')])\<rparr>
      | CreateRepo r \<Rightarrow> Responds \<lparr>status_code = 201, rtext = [], rjson = Some (PDict [])\<rparr>
      | PutFile ow r p ct \<Rightarrow>
          Responds \<lparr>status_code = 201, rtext = [],
            rjson = Some (PDict [(''commit'', PDict [(''sha'', p)])])\<rparr>
      | GetPages ow r \<Rightarrow>
          if pages_at \<le> Suc (length (filter is_pages tr))
          then Responds \<lparr>status_code = 200, rtext = [],
                 rjson = Some (PDict [(''html_url'', PStr ''https://x.github.io/y/'')])\<rparr>
          else Responds \<lparr>status_code = 404, rtext = [], rjson = None\<rparr>
      | PostCallback u p \<Rightarrow>
          if callback_at \<le> Suc (length (filter is_callback tr))
          then Responds \<lparr>status_code = 200, rtext = [], rjson = None\<rparr>
          else Raises)"

text \<open>
  Variations: a platform that answers the repository creation with a given response, one
  that refuses the write of one path with a 403, and a request with all the required
  fields, with the fields the handler reads from it.
\<close>

definition with_create :: "response \<Rightarrow> world \<Rightarrow> world" where
  "with_create r w tr c = (case c of CreateRepo x \<Rightarrow> Responds r | _ \<Rightarrow> w tr c)"


definition demo_fields :: "pyval \<Rightarrow> fields" where
  "demo_fields atts =
     \<lparr>email = PStr ''a@b.c'', task = PStr ''a/b'', nonce = PStr ''n1'',
      evaluation_url = PStr ''http://cb'', round_idx = 1, attachments = atts\<rparr>"

definition demo_request :: "pyval \<Rightarrow> pyval" where
  "demo_request atts =
     PDict [(''secret'', PStr ''s3cret''), (''email'', PStr ''a@b.c''), (''task'', PStr ''a/b''),
            (''nonce'', PStr ''n1''), (''evaluation_url'', PStr ''http://cb''),
            (''attachments'', atts)]"

section \<open>Describing traces\<close>

text \<open>
  The events of \<open>k\<close> callback attempts that did not return, the first followed by a sleep
  of \<open>d\<close>, each next sleep twice the one before; and of \<open>k\<close> polls that found nothing,
  each followed by a sleep of 5.
\<close>

fun failed_attempts :: "pyval \<Rightarrow> pyval \<Rightarrow> nat \<Rightarrow> nat \<Rightarrow> trace" where
  "failed_attempts url p 0 d = []"
| "failed_attempts url p (Suc k) d =
     Call (PostCallback url p) # Sleep d # failed_attempts url p k (d * 2)"

fun failed_polls :: "pyval \<Rightarrow> string \<Rightarrow> nat \<Rightarrow> trace" where
  "failed_polls owner repo 0 = []"
| "failed_polls owner repo (Suc k) =
     Call (GetPages owner repo) # Sleep 5 # failed_polls owner repo k"

text \<open>
  The writes of a list of files, in order; the result of the \<open>i\<close>-th write of the list
  when the ones before it have been sent; and the attachments of a list that decode, in
  order.
\<close>

definition writes :: "pyval \<Rightarrow> string \<Rightarrow> (pyval \<times> content) list \<Rightarrow> trace" where
  "writes owner repo files = map (\<lambda>(p, c). Call (PutFile owner repo p c)) files"

definition write_result ::
  "world \<Rightarrow> pyval \<Rightarrow> string \<Rightarrow> (pyval \<times> content) list \<Rightarrow> trace \<Rightarrow> nat \<Rightarrow> exn + pyval" where
  "write_result w owner repo files tr i =
     fst (gh_put_file w owner repo (fst (files ! i)) (snd (files ! i))
            (tr @ writes owner repo (take i files)))"

definition decoded_attachments :: "runtime \<Rightarrow> pyval list \<Rightarrow> (pyval \<times> content) list" where
  "decoded_attachments rt atts =
     concat (map (\<lambda>a. case decode_attachment rt a of Inr f \<Rightarrow> [f] | Inl e \<Rightarrow> []) atts)"

text \<open>The callback requests of a trace: the URL and the payload of each.\<close>

definition posted :: "trace \<Rightarrow> (pyval \<times> pyval) list" where
  "posted tr =
     concat (map (\<lambda>e. case e of Call (PostCallback u p) \<Rightarrow> [(u, p)] | _ \<Rightarrow> []) tr)"

text \<open>Whether the callback endpoint, after the events \<open>tr\<close>, answers the POST with a 200.\<close>

definition answers_200 :: "world \<Rightarrow> trace \<Rightarrow> pyval \<Rightarrow> pyval \<Rightarrow> bool" where
  "answers_200 w tr url p =
     (case w tr (PostCallback url p) of Raises \<Rightarrow> False | Responds r \<Rightarrow> status_code r = 200)"

text \<open>The time slept in a trace.\<close>

definition total_sleep :: "trace \<Rightarrow> nat" where
  "total_sleep tr = sum_list (map (\<lambda>e. case e of Sleep d \<Rightarrow> d | Call c \<Rightarrow> 0) tr)"

section \<open>Repository name\<close>

lemma str_replace_char:
  "str_replace [a] [b] s = map (\<lambda>c. if c = a then b else c) s"
  by (induction s) auto

text \<open>
  Claim C9. The repository name is a function of the task identifier alone: it is the
  task identifier with every \<open>/\<close> replaced by \<open>-\<close> and every other character kept in
  place, so no \<open>/\<close> remains and the length is unchanged; the task \<open>a/b\<close> gives the
  repository \<open>a-b\<close>.
\<close>

theorem repo_name_replaces_slashes:
  "repo_name t = map (\<lambda>c. if c = CHR ''/'' then CHR ''-'' else c) t
   \<and> CHR ''/'' \<notin> set (repo_name t)
   \<and> length (repo_name t) = length t
   \<and> repo_name ''a/b'' = ''a-b''"
  by (auto simp: repo_name_def str_replace_char)

section \<open>Request validation\<close>

lemma need_env_demo: "need_env demo_config = Inr ()"
  by (simp add: need_env_def demo_config_def env_val_def)

text \<open>
  Claim C3. On a server whose credentials are configured (the guard of line 178 passes),
  a request whose body is a JSON object and whose \<open>secret\<close> field is not the configured
  shared secret (absent counts as \<open>None\<close>) is answered with the 403 ``Invalid secret'',
  and nothing has been sent or slept: the trace is empty.
\<close>

theorem bad_secret_is_403:
  assumes "need_env cfg = Inr ()"
    and "py_get (PDict kv) ''secret'' PNone \<noteq> Inr (env_val (SHARED_SECRET cfg))"
  shows "handle rt cfg w year (Some (PDict kv)) = (Inl (HTTPException 403 ''Invalid secret''), [])
         \<and> response_status rt (fst (handle rt cfg w year (Some (PDict kv)))) = 403"
  using assms by (simp add: handle_def validate_def bind_r_def)

theorem bad_secret_is_403_witness:
  "need_env demo_config = Inr ()
   \<and> py_get (PDict [(''secret'', PStr ''wrong''), (''email'', PStr ''a@b.c'')]) ''secret'' PNone
        \<noteq> Inr (env_val (SHARED_SECRET demo_config))
   \<and> handle demo_runtime demo_config (demo_world 1 1) 2025
        (Some (PDict [(''secret'', PStr ''wrong''), (''email'', PStr ''a@b.c'')]))
      = (Inl (HTTPException 403 ''Invalid secret''), [])"
proof -
  have s: "py_get (PDict [(''secret'', PStr ''wrong''), (''email'', PStr ''a@b.c'')]) ''secret'' PNone
        \<noteq> Inr (env_val (SHARED_SECRET demo_config))"
    by (simp add: demo_config_def env_val_def)
  from bad_secret_is_403 [OF need_env_demo s] need_env_demo s show ?thesis by blast
qed

lemma read_fields_round_error:
  assumes "map_of kv ''round'' = Some v" and "py_int v = Inl e"
  shows "read_fields (PDict kv) = Inl e"
  using assms by (simp add: read_fields_def bind_r_def)

lemma py_int_errors: "py_int v = Inl e \<Longrightarrow> e \<in> {TypeError, ValueError, OverflowError}"
  by (induction v rule: py_int.induct) (auto split: option.splits)

lemma read_fields_missing:
  assumes "map_of kv ''round'' = None \<or> (\<exists>v n. map_of kv ''round'' = Some v \<and> py_int v = Inr n)"
    and "k \<in> {''email'', ''task'', ''nonce'', ''evaluation_url''}"
    and "map_of kv k = None"
  shows "read_fields (PDict kv) = Inl (HTTPException 400 ''Missing required fields'')"
  using assms by (auto simp add: read_fields_def bind_r_def)

lemma int_of_str_abc: "int_of_str ''abc'' = None"
  by (simp add: int_of_str_def strip_def is_space_def parse_unsigned_def digit_of_def)

lemma int_of_str_sep: "int_of_str ([CHR 0x1C] @ ''12'') = None"
  by (simp add: int_of_str_def strip_def is_space_def parse_unsigned_def digit_of_def
      max_str_digits_def)

lemma int_of_str_nbsp: "int_of_str ([CHR 0xA0] @ ''5'') = Some 5"
  by (simp add: int_of_str_def strip_def is_space_def parse_unsigned_def digit_of_def
      max_str_digits_def)

lemma int_of_str_nel: "int_of_str ([CHR 0x85] @ ''5'') = Some 5"
  by (simp add: int_of_str_def strip_def is_space_def parse_unsigned_def digit_of_def
      max_str_digits_def)

lemma strip_replicate:
  assumes "\<not> is_space c"
  shows "strip (replicate n c) = replicate n c"
proof (cases n)
  case 0
  then show ?thesis by (simp add: strip_def)
next
  case (Suc m)
  have "dropWhile is_space (replicate (Suc m) c) = replicate (Suc m) c"
    using assms by simp
  then show ?thesis unfolding Suc strip_def by (simp only: rev_replicate)
qed

lemma int_of_str_too_long: "int_of_str (replicate 4301 (CHR ''1'')) = None"
proof -
  let ?s = "replicate 4301 (CHR ''1'')"
  have sp: "\<not> is_space (CHR ''1'')" by (simp add: is_space_def)
  have s: "strip ?s = ?s" using sp by (rule strip_replicate)
  have c: "?s = CHR ''1'' # replicate 4300 (CHR ''1'')"
  proof -
    have "(4301::nat) = Suc 4300" by simp
    then show ?thesis by (simp only: replicate_Suc)
  qed
  have "filter (\<lambda>c. c \<noteq> CHR ''_'') ?s = ?s" by simp
  then have "length (filter (\<lambda>c. c \<noteq> CHR ''_'') ?s) = 4301" by (simp only: length_replicate)
  then have "parse_unsigned ?s = None" by (simp add: parse_unsigned_def max_str_digits_def)
  then show ?thesis
    unfolding int_of_str_def s Let_def by (subst c, subst (asm) c) simp
qed

text \<open>
  Claim C4, as stated, fails: the request below has the right secret and none of the four
  required fields, and its \<open>round\<close> is \<open>"abc"\<close>; \<open>int\<close> raises on line 184, before the
  check of line 186, and the answer is not the 400.
\<close>

theorem missing_field_bad_round_counterexample:
  "need_env demo_config = Inr ()
   \<and> py_get (PDict [(''secret'', PStr ''s3cret''), (''round'', PStr ''abc'')]) ''secret'' PNone
       = Inr (env_val (SHARED_SECRET demo_config))
   \<and> map_of [(''secret'', PStr ''s3cret''), (''round'', PStr ''abc'')] ''email'' = None
   \<and> handle demo_runtime demo_config (demo_world 1 1) 2025
        (Some (PDict [(''secret'', PStr ''s3cret''), (''round'', PStr ''abc'')]))
       = (Inl ValueError, [])
   \<and> response_status demo_runtime (Inl ValueError) \<noteq> 400"
  by (simp add: handle_def validate_def read_fields_def bind_r_def need_env_def demo_config_def
      env_val_def int_of_str_abc)

text \<open>
  Claim C4, amended. On a configured server, a request whose body is a JSON object with the
  right secret, whose \<open>round\<close> field is absent or converts to an integer, and which lacks
  one of \<open>email\<close>, \<open>task\<close>, \<open>nonce\<close>, \<open>evaluation_url\<close>, is answered with the 400
  ``Missing required fields'', and nothing has been sent or slept.
\<close>

theorem missing_field_is_400:
  assumes "need_env cfg = Inr ()"
    and "py_get (PDict kv) ''secret'' PNone = Inr (env_val (SHARED_SECRET cfg))"
    and "map_of kv ''round'' = None \<or> (\<exists>v n. map_of kv ''round'' = Some v \<and> py_int v = Inr n)"
    and "k \<in> {''email'', ''task'', ''nonce'', ''evaluation_url''}"
    and "map_of kv k = None"
  shows "handle rt cfg w year (Some (PDict kv))
           = (Inl (HTTPException 400 ''Missing required fields''), [])
         \<and> response_status rt (fst (handle rt cfg w year (Some (PDict kv)))) = 400"
proof -
  have "validate cfg (Some (PDict kv)) = Inl (HTTPException 400 ''Missing required fields'')"
    using assms(1,2) read_fields_missing [OF assms(3,4,5)]
    by (simp add: validate_def bind_r_def)
  then show ?thesis by (simp add: handle_def)
qed

theorem missing_field_is_400_witness:
  "handle demo_runtime demo_config (demo_world 1 1) 2025
     (Some (PDict [(''secret'', PStr ''s3cret''), (''email'', PStr ''a@b.c''),
                   (''task'', PStr ''a/b''), (''nonce'', PStr ''n1''), (''round'', PInt 2)]))
   = (Inl (HTTPException 400 ''Missing required fields''), [])
   \<and> handle demo_runtime demo_config (demo_world 1 1) 2025
     (Some (PDict [(''secret'', PStr ''s3cret''), (''email'', PStr ''a@b.c''),
                   (''task'', PStr ''a/b''), (''nonce'', PStr ''n1''),
                   (''round'', PStr ([CHR 0xA0] @ ''5''))]))
   = (Inl (HTTPException 400 ''Missing required fields''), [])"
proof -
  let ?kv = "[(''secret'', PStr ''s3cret''), (''email'', PStr ''a@b.c''),
              (''task'', PStr ''a/b''), (''nonce'', PStr ''n1''), (''round'', PInt 2)]"
  let ?kw = "[(''secret'', PStr ''s3cret''), (''email'', PStr ''a@b.c''),
              (''task'', PStr ''a/b''), (''nonce'', PStr ''n1''),
              (''round'', PStr ([CHR 0xA0] @ ''5''))]"
  have s: "py_get (PDict ?kv) ''secret'' PNone = Inr (env_val (SHARED_SECRET demo_config))"
    by (simp add: demo_config_def env_val_def)
  have s': "py_get (PDict ?kw) ''secret'' PNone = Inr (env_val (SHARED_SECRET demo_config))"
    by (simp add: demo_config_def env_val_def)
  have r: "map_of ?kv ''round'' = None \<or> (\<exists>v n. map_of ?kv ''round'' = Some v \<and> py_int v = Inr n)"
    by simp
  have "py_int (PStr ([CHR 0xA0] @ ''5'')) = Inr 5"
    by (simp only: py_int.simps int_of_str_nbsp option.case)
  then have r': "map_of ?kw ''round'' = None
                 \<or> (\<exists>v n. map_of ?kw ''round'' = Some v \<and> py_int v = Inr n)"
    by simp
  have k: "''evaluation_url'' \<in> {''email'', ''task'', ''nonce'', ''evaluation_url''}"
    by simp
  have m: "map_of ?kv ''evaluation_url'' = None"
    by simp
  have m': "map_of ?kw ''evaluation_url'' = None"
    by simp
  from missing_field_is_400 [OF need_env_demo s r k m]
       missing_field_is_400 [OF need_env_demo s' r' k m']
  show ?thesis by blast
qed

text \<open>
  Claim C10. On a configured server, a request whose body is a JSON object with the right
  secret and a \<open>round\<close> field that \<open>int\<close> refuses makes the handler raise that
  conversion error (a \<open>TypeError\<close>, \<open>ValueError\<close> or \<open>OverflowError\<close>, never the 400):
  the framework answers 500, nothing has been sent, and the required fields were not
  looked at, since nothing is assumed about them.
\<close>

theorem bad_round_raises_before_validation:
  assumes "need_env cfg = Inr ()"
    and "py_get (PDict kv) ''secret'' PNone = Inr (env_val (SHARED_SECRET cfg))"
    and "map_of kv ''round'' = Some v"
    and "py_int v = Inl e"
  shows "handle rt cfg w year (Some (PDict kv)) = (Inl e, [])
         \<and> e \<in> {TypeError, ValueError, OverflowError}
         \<and> response_status rt (Inl e) = 500"
proof -
  have "validate cfg (Some (PDict kv)) = Inl e"
    using assms read_fields_round_error [OF assms(3,4)]
    by (simp add: validate_def bind_r_def)
  moreover have m: "e \<in> {TypeError, ValueError, OverflowError}"
    using assms(4) by (rule py_int_errors)
  moreover have "response_status rt (Inl e) = 500" using m by auto
  ultimately show ?thesis by (simp add: handle_def)
qed

theorem bad_round_raises_before_validation_witness:
  "handle demo_runtime demo_config (demo_world 1 1) 2025
     (Some (PDict [(''secret'', PStr ''s3cret''), (''email'', PStr ''a@b.c''),
                   (''round'', PNone)]))
   = (Inl TypeError, [])
   \<and> handle demo_runtime demo_config (demo_world 1 1) 2025
     (Some (PDict [(''secret'', PStr ''s3cret''), (''email'', PStr ''a@b.c''),
                   (''task'', PStr ''a/b''), (''nonce'', PStr ''n1''),
                   (''evaluation_url'', PStr ''http://cb''), (''round'', PStr ''abc'')]))
   = (Inl ValueError, [])
   \<and> handle demo_runtime demo_config (demo_world 1 1) 2025
     (Some (PDict [(''secret'', PStr ''s3cret''), (''email'', PStr ''a@b.c''),
                   (''task'', PStr ''a/b''), (''nonce'', PStr ''n1''),
                   (''evaluation_url'', PStr ''http://cb''),
                   (''round'', PStr ([CHR 0x1C] @ ''12''))]))
   = (Inl ValueError, [])
   \<and> handle demo_runtime demo_config (demo_world 1 1) 2025
     (Some (PDict [(''secret'', PStr ''s3cret''),
                   (''round'', PStr (replicate 4301 (CHR ''1'')))]))
   = (Inl ValueError, [])"
proof -
  let ?a = "[(''secret'', PStr ''s3cret''), (''email'', PStr ''a@b.c''), (''round'', PNone)]"
  let ?b = "[(''secret'', PStr ''s3cret''), (''email'', PStr ''a@b.c''),
             (''task'', PStr ''a/b''), (''nonce'', PStr ''n1''),
             (''evaluation_url'', PStr ''http://cb''), (''round'', PStr ''abc'')]"
  let ?c = "[(''secret'', PStr ''s3cret''), (''email'', PStr ''a@b.c''),
             (''task'', PStr ''a/b''), (''nonce'', PStr ''n1''),
             (''evaluation_url'', PStr ''http://cb''),
             (''round'', PStr ([CHR 0x1C] @ ''12''))]"
  let ?d = "[(''secret'', PStr ''s3cret''), (''round'', PStr (replicate 4301 (CHR ''1'')))]"
  have sa: "py_get (PDict ?a) ''secret'' PNone = Inr (env_val (SHARED_SECRET demo_config))"
    by (simp add: demo_config_def env_val_def)
  have sb: "py_get (PDict ?b) ''secret'' PNone = Inr (env_val (SHARED_SECRET demo_config))"
    by (simp add: demo_config_def env_val_def)
  have sc: "py_get (PDict ?c) ''secret'' PNone = Inr (env_val (SHARED_SECRET demo_config))"
    by (simp add: demo_config_def env_val_def)
  have sd: "py_get (PDict ?d) ''secret'' PNone = Inr (env_val (SHARED_SECRET demo_config))"
    by (simp add: demo_config_def env_val_def)
  have ra: "map_of ?a ''round'' = Some PNone" by simp
  have rb: "map_of ?b ''round'' = Some (PStr ''abc'')" by simp
  have rc: "map_of ?c ''round'' = Some (PStr ([CHR 0x1C] @ ''12''))" by simp
  have rd: "map_of ?d ''round'' = Some (PStr (replicate 4301 (CHR ''1'')))"
    by simp
  have ia: "py_int PNone = Inl TypeError" by simp
  have ib: "py_int (PStr ''abc'') = Inl ValueError" by (simp add: int_of_str_abc)
  have ic: "py_int (PStr ([CHR 0x1C] @ ''12'')) = Inl ValueError"
    by (simp only: py_int.simps int_of_str_sep option.case)
  have id: "py_int (PStr (replicate 4301 (CHR ''1''))) = Inl ValueError"
    by (simp only: py_int.simps int_of_str_too_long option.case)
  from bad_round_raises_before_validation [OF need_env_demo sa ra ia]
       bad_round_raises_before_validation [OF need_env_demo sb rb ib]
       bad_round_raises_before_validation [OF need_env_demo sc rc ic]
       bad_round_raises_before_validation [OF need_env_demo sd rd id]
  show ?thesis by blast
qed

section \<open>Callback delivery\<close>

lemma post_loop_step_fail:
  "\<not> answers_200 w tr url p \<Longrightarrow>
   post_loop w url p (Suc n) d tr
     = post_loop w url p n (d * 2) (tr @ [Call (PostCallback url p), Sleep d])"
  by (simp add: answers_200_def request_def sleep_def split: outcome.splits)

lemma post_loop_step_ok:
  "answers_200 w tr url p \<Longrightarrow>
   post_loop w url p (Suc n) d tr = (True, tr @ [Call (PostCallback url p)])"
  by (simp add: answers_200_def request_def sleep_def split: outcome.splits)

lemma post_loop_success:
  assumes "\<forall>j<k. \<not> answers_200 w (tr @ failed_attempts url p j d) url p"
    and "answers_200 w (tr @ failed_attempts url p k d) url p"
    and "k < n"
  shows "post_loop w url p n d tr
           = (True, tr @ failed_attempts url p k d @ [Call (PostCallback url p)])"
  using assms
proof (induction k arbitrary: n d tr)
  case 0
  then obtain m where "n = Suc m" by (cases n) auto
  with 0 show ?case by (simp add: post_loop_step_ok del: post_loop.simps)
next
  case (Suc k)
  then obtain m where n: "n = Suc m" and km: "k < m" by (cases n) auto
  let ?tr = "tr @ [Call (PostCallback url p), Sleep d]"
  have f0: "\<not> answers_200 w tr url p" using Suc.prems(1) by force
  have a: "\<forall>j<k. \<not> answers_200 w (?tr @ failed_attempts url p j (d * 2)) url p"
  proof (intro allI impI)
    fix j assume "j < k"
    then have "\<not> answers_200 w (tr @ failed_attempts url p (Suc j) d) url p"
      using Suc.prems(1) [rule_format, of "Suc j"] by simp
    then show "\<not> answers_200 w (?tr @ failed_attempts url p j (d * 2)) url p" by simp
  qed
  have b: "answers_200 w (?tr @ failed_attempts url p k (d * 2)) url p"
    using Suc.prems(2) by simp
  show ?case
    using Suc.IH [OF a b km] f0 by (simp add: n post_loop_step_fail del: post_loop.simps)
qed

lemma post_loop_failure:
  assumes "\<forall>j<n. \<not> answers_200 w (tr @ failed_attempts url p j d) url p"
  shows "post_loop w url p n d tr = (False, tr @ failed_attempts url p n d)"
  using assms
proof (induction n arbitrary: d tr)
  case 0
  show ?case by simp
next
  case (Suc n)
  let ?tr = "tr @ [Call (PostCallback url p), Sleep d]"
  have f0: "\<not> answers_200 w tr url p" using Suc.prems by force
  have a: "\<forall>j<n. \<not> answers_200 w (?tr @ failed_attempts url p j (d * 2)) url p"
  proof (intro allI impI)
    fix j assume "j < n"
    then have "\<not> answers_200 w (tr @ failed_attempts url p (Suc j) d) url p"
      using Suc.prems [rule_format, of "Suc j"] by simp
    then show "\<not> answers_200 w (?tr @ failed_attempts url p j (d * 2)) url p" by simp
  qed
  show ?case using Suc.IH [OF a] f0 by (simp add: post_loop_step_fail del: post_loop.simps)
qed

lemma post_loop_cases:
  "\<exists>k\<le>n. (\<forall>j<k. \<not> answers_200 w (tr @ failed_attempts url p j d) url p)
     \<and> (if k < n then answers_200 w (tr @ failed_attempts url p k d) url p
                  \<and> post_loop w url p n d tr
                      = (True, tr @ failed_attempts url p k d @ [Call (PostCallback url p)])
         else post_loop w url p n d tr = (False, tr @ failed_attempts url p n d))"
proof (cases "\<exists>k<n. answers_200 w (tr @ failed_attempts url p k d) url p")
  case True
  define k where "k = (LEAST k. k < n \<and> answers_200 w (tr @ failed_attempts url p k d) url p)"
  have k: "k < n \<and> answers_200 w (tr @ failed_attempts url p k d) url p"
    unfolding k_def using True by (rule_tac LeastI_ex) 
  have least: "\<forall>j<k. \<not> answers_200 w (tr @ failed_attempts url p j d) url p"
  proof (intro allI impI)
    fix j assume jk: "j < k"
    show "\<not> answers_200 w (tr @ failed_attempts url p j d) url p"
    proof
      assume "answers_200 w (tr @ failed_attempts url p j d) url p"
      then have "j < n \<and> answers_200 w (tr @ failed_attempts url p j d) url p"
        using jk k by simp
      then have "k \<le> j" unfolding k_def by (rule Least_le)
      with jk show False by simp
    qed
  qed
  from post_loop_success [OF least] k least show ?thesis
    by (intro exI [of _ k]) simp
next
  case False
  then have "\<forall>j<n. \<not> answers_200 w (tr @ failed_attempts url p j d) url p" by blast
  from post_loop_failure [OF this] this show ?thesis
    by (intro exI [of _ n]) simp
qed

lemma total_sleep_failed_attempts:
  "total_sleep (failed_attempts url p k d) + d = d * 2 ^ k"
proof (induction k arbitrary: d)
  case 0
  show ?case by (simp add: total_sleep_def)
next
  case (Suc k)
  have "total_sleep (failed_attempts url p (Suc k) d) + d
          = total_sleep (failed_attempts url p k (d * 2)) + d * 2"
    by (simp add: total_sleep_def)
  also have "\<dots> = (d * 2) * 2 ^ k" by (rule Suc.IH)
  finally show ?case by simp
qed

lemma failed_attempts_six:
  "failed_attempts url p 6 1 =
     [Call (PostCallback url p), Sleep 1, Call (PostCallback url p), Sleep 2,
      Call (PostCallback url p), Sleep 4, Call (PostCallback url p), Sleep 8,
      Call (PostCallback url p), Sleep 16, Call (PostCallback url p), Sleep 32]"
  by (simp add: eval_nat_numeral)


lemma count_failed_attempts:
  "length (filter is_callback (failed_attempts url p k d)) = k"
  by (induction k arbitrary: d) (simp_all add: is_callback_def)

text \<open>
  Claim C1. Whatever the endpoint does, \<open>_post_with_backoff\<close> returns a boolean and
  sends at most six POSTs of the payload to the evaluation URL: for some \<open>k \<le> 6\<close> the
  first \<open>k\<close> attempts were not answered with a 200 (another status, or an exception,
  which is swallowed), each was followed by a sleep, and either \<open>k < 6\<close>, the next
  attempt was answered with a 200 and the result is \<open>True\<close> with nothing after that
  POST, or \<open>k = 6\<close> and the result is \<open>False\<close>. The sleeps are 1, 2, 4, 8, 16, 32.
  In particular, when the first five attempts fail and the sixth is answered with a 200,
  the delivery succeeds and the time slept is 1 + 2 + 4 + 8 + 16 = 31.
\<close>

theorem post_with_backoff_six_attempts:
  "(\<exists>k\<le>6. (\<forall>j<k. \<not> answers_200 w (tr @ failed_attempts url p j 1) url p)
       \<and> (if k < 6
          then answers_200 w (tr @ failed_attempts url p k 1) url p
             \<and> post_with_backoff w url p tr
                 = (True, tr @ failed_attempts url p k 1 @ [Call (PostCallback url p)])
          else post_with_backoff w url p tr = (False, tr @ failed_attempts url p 6 1)))
   \<and> failed_attempts url p 6 1
       = [Call (PostCallback url p), Sleep 1, Call (PostCallback url p), Sleep 2,
          Call (PostCallback url p), Sleep 4, Call (PostCallback url p), Sleep 8,
          Call (PostCallback url p), Sleep 16, Call (PostCallback url p), Sleep 32]
   \<and> ((\<forall>j<5. \<not> answers_200 w (tr @ failed_attempts url p j 1) url p)
        \<and> answers_200 w (tr @ failed_attempts url p 5 1) url p
      \<longrightarrow> post_with_backoff w url p tr
            = (True, tr @ failed_attempts url p 5 1 @ [Call (PostCallback url p)])
         \<and> total_sleep (failed_attempts url p 5 1 @ [Call (PostCallback url p)]) = 31)"
proof (intro conjI impI)
  show "\<exists>k\<le>6. (\<forall>j<k. \<not> answers_200 w (tr @ failed_attempts url p j 1) url p)
       \<and> (if k < 6
          then answers_200 w (tr @ failed_attempts url p k 1) url p
             \<and> post_with_backoff w url p tr
                 = (True, tr @ failed_attempts url p k 1 @ [Call (PostCallback url p)])
          else post_with_backoff w url p tr = (False, tr @ failed_attempts url p 6 1))"
    unfolding post_with_backoff_def by (rule post_loop_cases)
next
  show "failed_attempts url p 6 1
       = [Call (PostCallback url p), Sleep 1, Call (PostCallback url p), Sleep 2,
          Call (PostCallback url p), Sleep 4, Call (PostCallback url p), Sleep 8,
          Call (PostCallback url p), Sleep 16, Call (PostCallback url p), Sleep 32]"
    by (rule failed_attempts_six)
next
  assume a: "(\<forall>j<5. \<not> answers_200 w (tr @ failed_attempts url p j 1) url p)
        \<and> answers_200 w (tr @ failed_attempts url p 5 1) url p"
  show "post_with_backoff w url p tr
            = (True, tr @ failed_attempts url p 5 1 @ [Call (PostCallback url p)])"
    unfolding post_with_backoff_def using a by (intro post_loop_success) simp_all
next
  have "total_sleep (failed_attempts url p 5 1) + 1 = 1 * 2 ^ 5"
    by (rule total_sleep_failed_attempts)
  then show "total_sleep (failed_attempts url p 5 1 @ [Call (PostCallback url p)]) = 31"
    by (simp add: total_sleep_def)
qed

theorem post_with_backoff_six_attempts_witness:
  "post_with_backoff (demo_world 1 6) (PStr ''http://cb'') (PDict []) []
     = (True, failed_attempts (PStr ''http://cb'') (PDict []) 5 1
               @ [Call (PostCallback (PStr ''http://cb'') (PDict []))])
   \<and> total_sleep (failed_attempts (PStr ''http://cb'') (PDict []) 5 1
               @ [Call (PostCallback (PStr ''http://cb'') (PDict []))]) = 31"
proof -
  let ?u = "PStr ''http://cb''" and ?p = "PDict []"
  have f: "\<forall>j<5. \<not> answers_200 (demo_world 1 6) ([] @ failed_attempts ?u ?p j 1) ?u ?p"
    by (simp add: answers_200_def demo_world_def count_failed_attempts)
  have s: "answers_200 (demo_world 1 6) ([] @ failed_attempts ?u ?p 5 1) ?u ?p"
    by (simp add: answers_200_def demo_world_def count_failed_attempts)
  from post_with_backoff_six_attempts [of "demo_world 1 6" "[]" ?u ?p] f s
  show ?thesis by simp
qed

section \<open>Waiting for the pages URL\<close>

lemma gh_pages_url_trace:
  "snd (gh_pages_url w owner repo tr) = tr @ [Call (GetPages owner repo)]"
  by (simp add: gh_pages_url_def request_def split: outcome.splits)







lemma poll_bound:
  "\<exists>k\<le>n. snd (poll_pages w owner repo n pu tr) = tr @ failed_polls owner repo k
        \<or> (k < n \<and> snd (poll_pages w owner repo n pu tr)
                      = tr @ failed_polls owner repo k @ [Call (GetPages owner repo)])"
proof (induction n arbitrary: pu tr)
  case 0
  show ?case by simp
next
  case (Suc n)
  let ?c = "Call (GetPages owner repo)"
  obtain res where g: "gh_pages_url w owner repo tr = (res, tr @ [?c])"
    using gh_pages_url_trace [of w owner repo tr] by (cases "gh_pages_url w owner repo tr") simp
  show ?case
  proof (cases "\<exists>u. res = Inr u \<and> \<not> truthy u")
    case True
    then obtain u where u: "res = Inr u" "\<not> truthy u" by blast
    have step: "poll_pages w owner repo (Suc n) pu tr
                  = poll_pages w owner repo n u (tr @ [?c, Sleep 5])"
      using g u by (simp add: sleep_def)
    from Suc.IH [of u "tr @ [?c, Sleep 5]"]
    obtain k where k: "k \<le> n"
      "snd (poll_pages w owner repo n u (tr @ [?c, Sleep 5]))
           = (tr @ [?c, Sleep 5]) @ failed_polls owner repo k
        \<or> (k < n \<and> snd (poll_pages w owner repo n u (tr @ [?c, Sleep 5]))
                      = (tr @ [?c, Sleep 5]) @ failed_polls owner repo k @ [?c])"
      by blast
    show ?thesis
      using k unfolding step by (intro exI [of _ "Suc k"]) auto
  next
    case False
    then have "snd (poll_pages w owner repo (Suc n) pu tr) = tr @ [?c]"
      using g by (cases res) auto
    then show ?thesis by (intro exI [of _ 0]) simp
  qed
qed






section \<open>Creating the repository\<close>

lemma small_int_serialisable: "\<bar>i\<bar> < 10 \<Longrightarrow> \<bar>i\<bar> < max_json_int"
proof -
  assume a: "\<bar>i\<bar> < 10"
  have "(10::int) \<le> 10 ^ 4300" by (rule self_le_power) simp_all
  with a have "\<bar>i\<bar> < 10 ^ 4300" by (rule less_le_trans)
  then show ?thesis unfolding max_json_int_def .
qed

lemma validate_demo: "validate demo_config (Some (demo_request atts)) = Inr (demo_fields atts)"
  by (simp add: validate_def demo_request_def demo_fields_def read_fields_def bind_r_def
      need_env_def demo_config_def env_val_def)

lemma gh_owner_configured:
  "OWNER cfg = Some ow \<Longrightarrow> ow \<noteq> [] \<Longrightarrow> gh_owner cfg w tr = (Inr (PStr ow), tr)"
  by (simp add: gh_owner_def env_val_def)

lemma contains_iff: "contains sub s = (\<exists>pre post. s = pre @ sub @ post)"
proof (induction s)
  case Nil
  show ?case by auto
next
  case (Cons c cs)
  show ?case
  proof
    assume "contains sub (c # cs)"
    then consider "prefix sub (c # cs)" | "contains sub cs" by auto
    then show "\<exists>pre post. c # cs = pre @ sub @ post"
    proof cases
      case 1
      then obtain post where "c # cs = sub @ post" by (auto simp: prefix_def)
      then have "c # cs = [] @ sub @ post" by simp
      then show ?thesis by blast
    next
      case 2
      then obtain pre post where "cs = pre @ sub @ post" using Cons.IH by blast
      then have "c # cs = (c # pre) @ sub @ post" by simp
      then show ?thesis by blast
    qed
  next
    assume "\<exists>pre post. c # cs = pre @ sub @ post"
    then obtain pre post where e: "c # cs = pre @ sub @ post" by blast
    show "contains sub (c # cs)"
    proof (cases pre)
      case Nil
      then have "prefix sub (c # cs)" using e by (simp add: prefix_def)
      then show ?thesis by simp
    next
      case (Cons a as)
      then have "cs = as @ sub @ post" using e by simp
      then have "contains sub cs" using Cons.IH by blast
      then show ?thesis by simp
    qed
  qed
qed

lemma of_char_less: "(of_char c :: nat) < 256"
proof -
  have "(of_char c :: nat) mod 256 = of_char c" by (rule of_char_mod_256)
  then show ?thesis by (metis mod_less_divisor zero_less_numeral)
qed

lemma lower_char_small:
  assumes "97 \<le> (of_char a :: nat)" and "(of_char a :: nat) \<le> 122"
  shows "(lower_char b = a) = (b = a \<or> (of_char b :: nat) + 32 = of_char a)"
proof -
  let ?n = "of_char b :: nat" and ?m = "of_char a :: nat"
  have n: "?n < 256" by (rule of_char_less)
  show ?thesis
  proof (cases "(65 \<le> ?n \<and> ?n \<le> 90) \<or> (192 \<le> ?n \<and> ?n \<le> 214) \<or> (216 \<le> ?n \<and> ?n \<le> 222)")
    case True
    then have l: "lower_char b = char_of (?n + 32)" by (simp add: lower_char_def Let_def)
    have "(char_of (?n + 32) = a) = ((of_char (char_of (?n + 32) :: char) :: nat) = ?m)"
      by (simp only: of_char_eq_iff)
    also have "\<dots> = (?n + 32 = ?m)"
    proof -
      have "?n + 32 < 256" using True by auto
      then show ?thesis by (simp add: of_char_of)
    qed
    finally have 1: "(lower_char b = a) = (?n + 32 = ?m)" using l by simp
    have "?n \<noteq> ?m" using True assms by arith
    then have "b \<noteq> a" by auto
    then show ?thesis using 1 by simp
  next
    case False
    have l: "lower_char b = b" using False by (auto simp: lower_char_def Let_def)
    have "?n + 32 \<noteq> ?m" using False assms by arith
    then show ?thesis using l by simp
  qed
qed

lemma char_eq_of_char: "(b = c) = ((of_char b :: nat) = of_char c)"
  by (simp only: of_char_eq_iff)

lemma lower_char_e: "(lower_char b = CHR ''e'') = (b = CHR ''e'' \<or> b = CHR ''E'')"
  by (simp add: lower_char_small char_eq_of_char [of b "CHR ''E''"])
lemma lower_char_x: "(lower_char b = CHR ''x'') = (b = CHR ''x'' \<or> b = CHR ''X'')"
  by (simp add: lower_char_small char_eq_of_char [of b "CHR ''X''"])
lemma lower_char_i: "(lower_char b = CHR ''i'') = (b = CHR ''i'' \<or> b = CHR ''I'')"
  by (simp add: lower_char_small char_eq_of_char [of b "CHR ''I''"])
lemma lower_char_s: "(lower_char b = CHR ''s'') = (b = CHR ''s'' \<or> b = CHR ''S'')"
  by (simp add: lower_char_small char_eq_of_char [of b "CHR ''S''"])
lemma lower_char_t: "(lower_char b = CHR ''t'') = (b = CHR ''t'' \<or> b = CHR ''T'')"
  by (simp add: lower_char_small char_eq_of_char [of b "CHR ''T''"])

lemma map_eq_six:
  assumes "map f x = [a1, a2, a3, a4, a5, a6]"
  obtains c1 c2 c3 c4 c5 c6 where "x = [c1, c2, c3, c4, c5, c6]" "f c1 = a1" "f c2 = a2"
    "f c3 = a3" "f c4 = a4" "f c5 = a5" "f c6 = a6"
proof -
  from assms obtain c1 x1 where 1: "x = c1 # x1" "f c1 = a1" "map f x1 = [a2, a3, a4, a5, a6]"
    by (cases x) simp_all
  from 1(3) obtain c2 x2 where 2: "x1 = c2 # x2" "f c2 = a2" "map f x2 = [a3, a4, a5, a6]"
    by (cases x1) simp_all
  from 2(3) obtain c3 x3 where 3: "x2 = c3 # x3" "f c3 = a3" "map f x3 = [a4, a5, a6]"
    by (cases x2) simp_all
  from 3(3) obtain c4 x4 where 4: "x3 = c4 # x4" "f c4 = a4" "map f x4 = [a5, a6]"
    by (cases x3) simp_all
  from 4(3) obtain c5 x5 where 5: "x4 = c5 # x5" "f c5 = a5" "map f x5 = [a6]"
    by (cases x4) simp_all
  from 5(3) obtain c6 where 6: "x5 = [c6]" "f c6 = a6"
    by (cases x5) simp_all
  show thesis
    by (rule that [of c1 c2 c3 c4 c5 c6]) (simp_all add: 1 2 3 4 5 6)
qed

lemma lower_exists_intro:
  assumes "x = [c1, c2, c3, c4, c5, c6]"
    and "c1 \<in> {CHR ''e'', CHR ''E''}" and "c2 \<in> {CHR ''x'', CHR ''X''}"
    and "c3 \<in> {CHR ''i'', CHR ''I''}" and "c4 \<in> {CHR ''s'', CHR ''S''}"
    and "c5 \<in> {CHR ''t'', CHR ''T''}" and "c6 \<in> {CHR ''s'', CHR ''S''}"
  shows "map lower_char x = ''exists''"
proof -
  have "lower_char c1 = CHR ''e''" using assms(2) unfolding lower_char_e by simp
  moreover have "lower_char c2 = CHR ''x''" using assms(3) unfolding lower_char_x by simp
  moreover have "lower_char c3 = CHR ''i''" using assms(4) unfolding lower_char_i by simp
  moreover have "lower_char c4 = CHR ''s''" using assms(5) unfolding lower_char_s by simp
  moreover have "lower_char c5 = CHR ''t''" using assms(6) unfolding lower_char_t by simp
  moreover have "lower_char c6 = CHR ''s''" using assms(7) unfolding lower_char_s by simp
  ultimately show ?thesis by (simp add: assms(1))
qed

lemma exists_test:
  "contains ''exists'' (lower s)
     = (\<exists>pre post c1 c2 c3 c4 c5 c6. s = pre @ [c1, c2, c3, c4, c5, c6] @ post
          \<and> c1 \<in> {CHR ''e'', CHR ''E''} \<and> c2 \<in> {CHR ''x'', CHR ''X''}
          \<and> c3 \<in> {CHR ''i'', CHR ''I''} \<and> c4 \<in> {CHR ''s'', CHR ''S''}
          \<and> c5 \<in> {CHR ''t'', CHR ''T''} \<and> c6 \<in> {CHR ''s'', CHR ''S''})"
proof
  assume "contains ''exists'' (lower s)"
  then have "\<exists>p q. map lower_char s = p @ (''exists'' @ q)"
    by (simp only: contains_iff lower_def)
  then obtain p q where "map lower_char s = p @ (''exists'' @ q)"
    by (elim exE)
  then have "\<exists>us vs. s = us @ vs \<and> p = map lower_char us
               \<and> ''exists'' @ q = map lower_char vs"
    by (simp only: map_eq_append_conv)
  then obtain pre r where 1: "s = pre @ r" "''exists'' @ q = map lower_char r"
    by (elim exE conjE)
  from 1(2) have "\<exists>us vs. r = us @ vs \<and> ''exists'' = map lower_char us
               \<and> q = map lower_char vs"
    by (simp only: append_eq_map_conv)
  then obtain x post where 2: "r = x @ post" "''exists'' = map lower_char x"
    by (elim exE conjE)
  from 2(2) have "map lower_char x = ''exists''" by (rule sym)
  then obtain c1 c2 c3 c4 c5 c6 where x: "x = [c1, c2, c3, c4, c5, c6]"
    and l: "lower_char c1 = CHR ''e''" "lower_char c2 = CHR ''x''" "lower_char c3 = CHR ''i''"
      "lower_char c4 = CHR ''s''" "lower_char c5 = CHR ''t''" "lower_char c6 = CHR ''s''"
    by (rule map_eq_six)
  show "\<exists>pre post c1 c2 c3 c4 c5 c6. s = pre @ [c1, c2, c3, c4, c5, c6] @ post
          \<and> c1 \<in> {CHR ''e'', CHR ''E''} \<and> c2 \<in> {CHR ''x'', CHR ''X''}
          \<and> c3 \<in> {CHR ''i'', CHR ''I''} \<and> c4 \<in> {CHR ''s'', CHR ''S''}
          \<and> c5 \<in> {CHR ''t'', CHR ''T''} \<and> c6 \<in> {CHR ''s'', CHR ''S''}"
  proof (intro exI conjI)
    show "s = pre @ [c1, c2, c3, c4, c5, c6] @ post" by (simp only: 1(1) 2(1) x)
    show "c1 \<in> {CHR ''e'', CHR ''E''}" using l(1) unfolding lower_char_e by simp
    show "c2 \<in> {CHR ''x'', CHR ''X''}" using l(2) unfolding lower_char_x by simp
    show "c3 \<in> {CHR ''i'', CHR ''I''}" using l(3) unfolding lower_char_i by simp
    show "c4 \<in> {CHR ''s'', CHR ''S''}" using l(4) unfolding lower_char_s by simp
    show "c5 \<in> {CHR ''t'', CHR ''T''}" using l(5) unfolding lower_char_t by simp
    show "c6 \<in> {CHR ''s'', CHR ''S''}" using l(6) unfolding lower_char_s by simp
  qed
next
  assume "\<exists>pre post c1 c2 c3 c4 c5 c6. s = pre @ [c1, c2, c3, c4, c5, c6] @ post
          \<and> c1 \<in> {CHR ''e'', CHR ''E''} \<and> c2 \<in> {CHR ''x'', CHR ''X''}
          \<and> c3 \<in> {CHR ''i'', CHR ''I''} \<and> c4 \<in> {CHR ''s'', CHR ''S''}
          \<and> c5 \<in> {CHR ''t'', CHR ''T''} \<and> c6 \<in> {CHR ''s'', CHR ''S''}"
  then show "contains ''exists'' (lower s)"
  proof (elim exE conjE)
    fix pre post c1 c2 c3 c4 c5 c6
    assume s: "s = pre @ [c1, c2, c3, c4, c5, c6] @ post"
      and m: "c1 \<in> {CHR ''e'', CHR ''E''}" "c2 \<in> {CHR ''x'', CHR ''X''}"
        "c3 \<in> {CHR ''i'', CHR ''I''}" "c4 \<in> {CHR ''s'', CHR ''S''}"
        "c5 \<in> {CHR ''t'', CHR ''T''}" "c6 \<in> {CHR ''s'', CHR ''S''}"
    have "map lower_char [c1, c2, c3, c4, c5, c6] = ''exists''"
      using refl m by (rule lower_exists_intro)
    then have "lower s = map lower_char pre @ ''exists'' @ map lower_char post"
      unfolding lower_def s map_append by (rule arg_cong2 [OF refl arg_cong2 [OF _ refl]])
    then have "\<exists>a b. lower s = a @ ''exists'' @ b" by (intro exI)
    then show "contains ''exists'' (lower s)" by (simp only: contains_iff)
  qed
qed

lemma handle_demo_lock_exists:
  "handle demo_runtime demo_config
     (with_create \<lparr>status_code = 500, rtext = ''Server error: lock EXISTS'', rjson = None\<rparr>
        (demo_world 1 1))
     2025 (Some (demo_request (PList [])))
   = (Inr (PDict
        [(''ok'', PBool True), (''email'', PStr ''a@b.c''), (''task'', PStr ''a/b''),
         (''round'', PInt 1), (''nonce'', PStr ''n1''),
         (''repo_url'', PStr ''https://github.com/octo/a-b''),
         (''commit_sha'', PStr ''index.html''),
         (''pages_url'', PStr ''https://x.github.io/y/'')]),
      [Call (CreateRepo ''a-b''),
       Call (PutFile (PStr ''octo'') ''a-b'' (PStr ''LICENSE'') (MIT_TEXT 2025 (PStr ''octo''))),
       Call (PutFile (PStr ''octo'') ''a-b'' (PStr ''README.md'') README_MD),
       Call (PutFile (PStr ''octo'') ''a-b'' (PStr ''.github/workflows/pages.yml'') PAGES_WORKFLOW),
       Call (PutFile (PStr ''octo'') ''a-b'' (PStr ''index.html'') INDEX_HTML),
       Call (GetPages (PStr ''octo'') ''a-b''),
       Call (PostCallback (PStr ''http://cb'')
          (PDict [(''email'', PStr ''a@b.c''), (''task'', PStr ''a/b''),
                  (''round'', PInt 1), (''nonce'', PStr ''n1''),
                  (''repo_url'', PStr ''https://github.com/octo/a-b''),
                  (''commit_sha'', PStr ''index.html''),
                  (''pages_url'', PStr ''https://x.github.io/y/'')]))])"
  by code_simp

lemma lock_exists_text: "\<not> contains ''already exists'' (lower ''Server error: lock EXISTS'')"
  by (simp add: lower_def lower_char_def)

text \<open>
  Claim C5, as stated, fails in its second half. The platform answers the creation with a
  500 whose text is \<open>Server error: lock EXISTS\<close>: a status that is not a success, and
  a text that does not say ``already exists''. Line 140 only looks for \<open>exists\<close> in the
  text, finds it, and does not raise: the handler goes on to write the files and answers
  200.
\<close>

theorem lock_exists_not_fatal_counterexample:
  "status_code \<lparr>status_code = 500, rtext = ''Server error: lock EXISTS'', rjson = None\<rparr> = 500
   \<and> \<not> contains ''already exists'' (lower ''Server error: lock EXISTS'')
   \<and> fst (handle demo_runtime demo_config
        (with_create \<lparr>status_code = 500, rtext = ''Server error: lock EXISTS'', rjson = None\<rparr>
           (demo_world 1 1))
        2025 (Some (demo_request (PList []))))
     = Inr (PDict
        [(''ok'', PBool True), (''email'', PStr ''a@b.c''), (''task'', PStr ''a/b''),
         (''round'', PInt 1), (''nonce'', PStr ''n1''),
         (''repo_url'', PStr ''https://github.com/octo/a-b''),
         (''commit_sha'', PStr ''index.html''),
         (''pages_url'', PStr ''https://x.github.io/y/'')])
   \<and> response_status demo_runtime (fst (handle demo_runtime demo_config
        (with_create \<lparr>status_code = 500, rtext = ''Server error: lock EXISTS'', rjson = None\<rparr>
           (demo_world 1 1))
        2025 (Some (demo_request (PList []))))) = 200"
  unfolding handle_demo_lock_exists
  using small_int_serialisable [of 1] lock_exists_text by (simp add: demo_runtime_def)

text \<open>
  Claim C5, amended. Take a request that passed validation, with the owner resolved and a
  str task, and let the platform answer the creation of the repository with a response
  \<open>r\<close>. When \<open>r\<close> is the 201, or its text contains \<open>exists\<close> in any letter case (as
  the platform's ``name already exists on this account'' does), \<open>_gh_create_repo\<close>
  returns normally and the handler goes on to publish, in the same way in both cases. When
  \<open>r\<close> is neither, the handler raises the 500 ``Create repo failed'' with the platform's
  text, and the creation request is the last thing it did. The test of line 140 holds
  exactly when the six letters stand somewhere in the text, each small or capital.
\<close>

theorem create_repo_exists_is_success:
  assumes "validate cfg body = Inr f"
    and "gh_owner cfg w [] = (Inr owner, tr)"
    and "task f = PStr t"
    and "w tr (CreateRepo (repo_name t)) = Responds r"
  shows "(status_code r = 201 \<or> contains ''exists'' (lower (rtext r))
          \<longrightarrow> gh_create_repo w owner (repo_name t) tr
                = (Inr (), tr @ [Call (CreateRepo (repo_name t))])
             \<and> handle rt cfg w year body
                = publish rt w year f owner (repo_name t) (tr @ [Call (CreateRepo (repo_name t))]))
       \<and> (status_code r \<noteq> 201 \<and> \<not> contains ''exists'' (lower (rtext r))
          \<longrightarrow> handle rt cfg w year body
                = (Inl (HTTPException 500 (''Create repo failed: '' @ rtext r)),
                   tr @ [Call (CreateRepo (repo_name t))])
             \<and> response_status rt (fst (handle rt cfg w year body)) = 500)
       \<and> contains ''exists'' (lower (rtext r))
           = (\<exists>pre post c1 c2 c3 c4 c5 c6. rtext r = pre @ [c1, c2, c3, c4, c5, c6] @ post
                \<and> c1 \<in> {CHR ''e'', CHR ''E''} \<and> c2 \<in> {CHR ''x'', CHR ''X''}
                \<and> c3 \<in> {CHR ''i'', CHR ''I''} \<and> c4 \<in> {CHR ''s'', CHR ''S''}
                \<and> c5 \<in> {CHR ''t'', CHR ''T''} \<and> c6 \<in> {CHR ''s'', CHR ''S''})"
proof (intro conjI)
  show "status_code r = 201 \<or> contains ''exists'' (lower (rtext r))
          \<longrightarrow> gh_create_repo w owner (repo_name t) tr
                = (Inr (), tr @ [Call (CreateRepo (repo_name t))])
             \<and> handle rt cfg w year body
                = publish rt w year f owner (repo_name t) (tr @ [Call (CreateRepo (repo_name t))])"
    using assms
    by (auto simp: handle_def deploy_def bind_io_def return_io_def repo_of_def
        gh_create_repo_def request_def)
next
  show "status_code r \<noteq> 201 \<and> \<not> contains ''exists'' (lower (rtext r))
          \<longrightarrow> handle rt cfg w year body
                = (Inl (HTTPException 500 (''Create repo failed: '' @ rtext r)),
                   tr @ [Call (CreateRepo (repo_name t))])
             \<and> response_status rt (fst (handle rt cfg w year body)) = 500"
    using assms
    by (auto simp: handle_def deploy_def bind_io_def return_io_def repo_of_def
        gh_create_repo_def request_def)
next
  show "contains ''exists'' (lower (rtext r))
           = (\<exists>pre post c1 c2 c3 c4 c5 c6. rtext r = pre @ [c1, c2, c3, c4, c5, c6] @ post
                \<and> c1 \<in> {CHR ''e'', CHR ''E''} \<and> c2 \<in> {CHR ''x'', CHR ''X''}
                \<and> c3 \<in> {CHR ''i'', CHR ''I''} \<and> c4 \<in> {CHR ''s'', CHR ''S''}
                \<and> c5 \<in> {CHR ''t'', CHR ''T''} \<and> c6 \<in> {CHR ''s'', CHR ''S''})"
    by (rule exists_test)
qed

lemma exists_text: "contains ''exists'' (lower ''name already exists on this account'')"
  by (simp add: lower_def lower_char_def)

lemma forbidden_text: "\<not> contains ''exists'' (lower ''Forbidden'')"
  by (simp add: lower_def lower_char_def)

lemma repo_name_demo: "repo_name ''a/b'' = ''a-b''"
  by (simp add: repo_name_def)

theorem create_repo_exists_is_success_witness:
  "handle demo_runtime demo_config
     (with_create \<lparr>status_code = 422, rtext = ''name already exists on this account'',
                   rjson = None\<rparr> (demo_world 1 1))
     2025 (Some (demo_request (PList [])))
   = publish demo_runtime
       (with_create \<lparr>status_code = 422, rtext = ''name already exists on this account'',
                     rjson = None\<rparr> (demo_world 1 1))
       2025 (demo_fields (PList [])) (PStr ''octo'') ''a-b'' [Call (CreateRepo ''a-b'')]
   \<and> handle demo_runtime demo_config
       (with_create \<lparr>status_code = 403, rtext = ''Forbidden'', rjson = None\<rparr> (demo_world 1 1))
       2025 (Some (demo_request (PList [])))
     = (Inl (HTTPException 500 ''Create repo failed: Forbidden''), [Call (CreateRepo ''a-b'')])"
proof -
  let ?r1 = "\<lparr>status_code = 422, rtext = ''name already exists on this account'', rjson = None\<rparr>"
  let ?r2 = "\<lparr>status_code = 403, rtext = ''Forbidden'', rjson = None\<rparr>"
  let ?w1 = "with_create ?r1 (demo_world 1 1)" and ?w2 = "with_create ?r2 (demo_world 1 1)"
  have o1: "gh_owner demo_config ?w1 [] = (Inr (PStr ''octo''), [])"
    by (rule gh_owner_configured) (simp_all add: demo_config_def)
  have o2: "gh_owner demo_config ?w2 [] = (Inr (PStr ''octo''), [])"
    by (rule gh_owner_configured) (simp_all add: demo_config_def)
  have t: "task (demo_fields (PList [])) = PStr ''a/b''"
    by (simp add: demo_fields_def)
  have c1: "?w1 [] (CreateRepo (repo_name ''a/b'')) = Responds ?r1"
    by (simp add: with_create_def)
  have c2: "?w2 [] (CreateRepo (repo_name ''a/b'')) = Responds ?r2"
    by (simp add: with_create_def)
  from create_repo_exists_is_success [OF validate_demo o1 t c1, of demo_runtime 2025]
       create_repo_exists_is_success [OF validate_demo o2 t c2, of demo_runtime 2025]
       exists_text forbidden_text
  show ?thesis by (simp add: repo_name_demo)
qed

section \<open>Publishing the files\<close>

lemma gh_put_file_trace:
  "snd (gh_put_file w owner repo p c tr) = tr @ [Call (PutFile owner repo p c)]"
  by (simp add: gh_put_file_def request_def split: outcome.splits)

lemma write_result_Cons:
  "write_result w owner repo ((p, c) # files) tr (Suc i)
     = write_result w owner repo files (tr @ [Call (PutFile owner repo p c)]) i"
  by (simp add: write_result_def writes_def)

lemma write_result_0:
  "write_result w owner repo ((p, c) # files) tr 0 = fst (gh_put_file w owner repo p c tr)"
  by (simp add: write_result_def writes_def)

lemma put_files_step_ok:
  assumes "fst (gh_put_file w owner repo p c tr) = Inr sha"
  shows "put_files w owner repo ((p, c) # files) lc tr
           = put_files w owner repo files sha (tr @ [Call (PutFile owner repo p c)])"
proof -
  have "gh_put_file w owner repo p c tr = (Inr sha, tr @ [Call (PutFile owner repo p c)])"
    using assms gh_put_file_trace [of w owner repo p c tr] by (simp add: prod_eq_iff)
  then show ?thesis by simp
qed


lemma put_files_all_ok:
  assumes "\<forall>i<length files. \<exists>s. write_result w owner repo files tr i = Inr s"
  shows "\<exists>sha. put_files w owner repo files lc tr = (Inr sha, tr @ writes owner repo files)
           \<and> (if files = [] then sha = lc
              else write_result w owner repo files tr (length files - 1) = Inr sha)"
  using assms
proof (induction files arbitrary: lc tr)
  case Nil
  show ?case by (simp add: writes_def)
next
  case (Cons f files)
  obtain p c where f: "f = (p, c)" by (cases f)
  let ?tr = "tr @ [Call (PutFile owner repo p c)]"
  obtain s where s: "fst (gh_put_file w owner repo p c tr) = Inr s"
    using Cons.prems [rule_format, of 0] by (auto simp: f write_result_0)
  have a: "\<forall>i<length files. \<exists>s. write_result w owner repo files ?tr i = Inr s"
  proof (intro allI impI)
    fix i assume "i < length files"
    then show "\<exists>s. write_result w owner repo files ?tr i = Inr s"
      using Cons.prems [rule_format, of "Suc i"] by (simp add: f write_result_Cons)
  qed
  from Cons.IH [OF a, of s] obtain sha where
    sha: "put_files w owner repo files s ?tr = (Inr sha, ?tr @ writes owner repo files)"
      "if files = [] then sha = s
       else write_result w owner repo files ?tr (length files - 1) = Inr sha"
    by blast
  have 1: "put_files w owner repo (f # files) lc tr
             = (Inr sha, tr @ writes owner repo (f # files))"
    using sha(1) put_files_step_ok [OF s, of files lc] by (simp add: f writes_def)
  have 2: "write_result w owner repo (f # files) tr (length (f # files) - 1) = Inr sha"
  proof (cases files)
    case Nil
    then show ?thesis using sha(2) s by (simp add: f write_result_0)
  next
    case (Cons g gs)
    then have "length (f # files) - 1 = Suc (length files - 1)" by simp
    then show ?thesis using sha(2) Cons by (simp add: f write_result_Cons del: length_Cons)
  qed
  from 1 2 show ?case by auto
qed


lemma add_attachments_decoded:
  "add_attachments rt files atts = files @ decoded_attachments rt atts"
  by (induction atts arbitrary: files) (auto simp: decoded_attachments_def split: sum.splits)

lemma build_files_list:
  "build_files rt year owner (PList atts)
     = Inr (fixed_files year owner @ decoded_attachments rt atts)"
  by (simp add: build_files_def bind_r_def add_attachments_decoded)

lemma decoded_attachments_append:
  "decoded_attachments rt (xs @ ys) = decoded_attachments rt xs @ decoded_attachments rt ys"
  by (simp add: decoded_attachments_def)

lemma decode_bad_url:
  assumes "py_getitem att ''url'' = Inr u" and "parse_data_uri rt u = Inl e"
  shows "\<exists>e'. decode_attachment rt att = Inl e'"
  using assms by (cases "py_getitem att ''name''") (simp_all add: decode_attachment_def bind_r_def)

lemma decoded_attachments_drop:
  assumes "py_getitem att ''url'' = Inr u" and "parse_data_uri rt u = Inl e"
  shows "decoded_attachments rt (pre @ [att] @ post) = decoded_attachments rt (pre @ post)"
proof -
  obtain e' where "decode_attachment rt att = Inl e'"
    using decode_bad_url [OF assms] by blast
  then show ?thesis by (simp add: decoded_attachments_def)
qed

lemma decoded_attachments_member:
  assumes "att \<in> set atts" and "decode_attachment rt att = Inr g"
  shows "g \<in> set (decoded_attachments rt atts)"
proof -
  obtain xs ys where "atts = xs @ att # ys"
    using assms(1) by (auto dest: split_list)
  then have "decoded_attachments rt atts
               = decoded_attachments rt xs @ g # decoded_attachments rt ys"
    using assms(2) by (simp add: decoded_attachments_def)
  then show ?thesis by simp
qed


lemma publish_attachments_cong:
  assumes "build_files rt year owner a = build_files rt year owner b"
  shows "publish rt w year (f\<lparr>attachments := a\<rparr>) owner repo tr
           = publish rt w year (f\<lparr>attachments := b\<rparr>) owner repo tr"
  using assms
  by (simp add: publish_def bind_io_def return_io_def report_def make_payload_def
      split: sum.splits prod.splits)

lemma deploy_attachments_cong:
  assumes "\<And>owner. build_files rt year owner a = build_files rt year owner b"
  shows "deploy rt cfg w year (f\<lparr>attachments := a\<rparr>) tr
           = deploy rt cfg w year (f\<lparr>attachments := b\<rparr>) tr"
  using publish_attachments_cong [OF assms]
  by (simp add: deploy_def bind_io_def return_io_def split: sum.splits prod.splits)





section \<open>Attachments\<close>

lemma strip_prefix_append: "strip_prefix p (p @ s) = Some s"
  by (simp add: strip_prefix_def)

lemma strip_prefix_Some: "strip_prefix p s = Some r \<Longrightarrow> s = p @ r"
  by (auto simp: strip_prefix_def prefix_def split: if_splits)

lemma takeWhile_stop: "y \<notin> set xs \<Longrightarrow> takeWhile (\<lambda>c. c \<noteq> y) (xs @ y # ys) = xs"
  by (induction xs) auto

lemma dropWhile_stop: "y \<notin> set xs \<Longrightarrow> dropWhile (\<lambda>c. c \<noteq> y) (xs @ y # ys) = y # ys"
  by (induction xs) auto

lemma takeWhile_all: "y \<notin> set xs \<Longrightarrow> takeWhile (\<lambda>c. c \<noteq> y) xs = xs"
  by (induction xs) auto

lemma dropWhile_all: "y \<notin> set xs \<Longrightarrow> dropWhile (\<lambda>c. c \<noteq> y) xs = []"
  by (induction xs) auto

lemma match_data_uri_accepts:
  assumes "m \<noteq> []" and "CHR '';'' \<notin> set m" and "CHR 0x0A \<notin> set g"
    and "nl = [] \<or> nl = [CHR 0x0A]"
  shows "match_data_uri (''data:'' @ m @ '';base64,'' @ g @ nl) = Some g"
proof -
  have t: "takeWhile (\<lambda>c. c \<noteq> CHR '';'') (m @ '';base64,'' @ g @ nl) = m"
    using assms(2) by (simp add: takeWhile_stop)
  have d: "dropWhile (\<lambda>c. c \<noteq> CHR '';'') (m @ '';base64,'' @ g @ nl) = '';base64,'' @ g @ nl"
    using assms(2) by (simp add: dropWhile_stop)
  have t2: "takeWhile (\<lambda>c. c \<noteq> CHR 0x0A) (g @ nl) = g"
    using assms(3,4) by (auto simp: takeWhile_stop takeWhile_all)
  have d2: "dropWhile (\<lambda>c. c \<noteq> CHR 0x0A) (g @ nl) = nl"
    using assms(3,4) by (auto simp: dropWhile_stop dropWhile_all)
  have "match_data_uri (''data:'' @ (m @ '';base64,'' @ g @ nl)) = Some g"
    unfolding match_data_uri_def strip_prefix_append
    using assms(1,4) by (simp only: option.case Let_def t d strip_prefix_append t2 d2) auto
  then show ?thesis by simp
qed

lemma match_data_uri_form:
  assumes "match_data_uri s = Some g"
  shows "\<exists>m nl. s = ''data:'' @ m @ '';base64,'' @ g @ nl \<and> m \<noteq> [] \<and> CHR '';'' \<notin> set m
           \<and> CHR 0x0A \<notin> set g \<and> (nl = [] \<or> nl = [CHR 0x0A])"
proof -
  obtain r where r: "strip_prefix ''data:'' s = Some r"
    using assms by (auto simp: match_data_uri_def split: option.splits)
  let ?m = "takeWhile (\<lambda>c. c \<noteq> CHR '';'') r"
  let ?rest = "dropWhile (\<lambda>c. c \<noteq> CHR '';'') r"
  have m: "?m \<noteq> []"
    using assms r by (auto simp: match_data_uri_def Let_def split: if_splits)
  obtain p where p: "strip_prefix '';base64,'' ?rest = Some p"
    using assms r m by (auto simp: match_data_uri_def Let_def split: option.splits if_splits)
  let ?g = "takeWhile (\<lambda>c. c \<noteq> CHR 0x0A) p"
  let ?t = "dropWhile (\<lambda>c. c \<noteq> CHR 0x0A) p"
  have g: "g = ?g" and t: "?t = [] \<or> ?t = [CHR 0x0A]"
    using assms r m p by (auto simp: match_data_uri_def Let_def split: if_splits)
  have "s = ''data:'' @ r" using r by (rule strip_prefix_Some)
  moreover have "r = ?m @ ?rest" by simp
  moreover have "?rest = '';base64,'' @ p" using p by (rule strip_prefix_Some)
  moreover have "p = ?g @ ?t" by simp
  ultimately have s: "s = ''data:'' @ ?m @ '';base64,'' @ g @ ?t"
    using g by metis
  have "CHR '';'' \<notin> set ?m" by (auto dest: set_takeWhileD)
  moreover have "CHR 0x0A \<notin> set g" unfolding g by (auto dest: set_takeWhileD)
  ultimately show ?thesis using s m t by blast
qed

lemma parse_data_uri_form:
  "(parse_data_uri rt (PStr s) = Inr bs)
     = (\<exists>m g nl. s = ''data:'' @ m @ '';base64,'' @ g @ nl \<and> m \<noteq> [] \<and> CHR '';'' \<notin> set m
           \<and> CHR 0x0A \<notin> set g \<and> (nl = [] \<or> nl = [CHR 0x0A]) \<and> b64decode rt g = Some bs)"
proof
  assume "parse_data_uri rt (PStr s) = Inr bs"
  then obtain g where g: "match_data_uri s = Some g" "b64decode rt g = Some bs"
    by (auto simp: parse_data_uri_def split: option.splits)
  from match_data_uri_form [OF g(1)] g(2)
  show "\<exists>m g nl. s = ''data:'' @ m @ '';base64,'' @ g @ nl \<and> m \<noteq> [] \<and> CHR '';'' \<notin> set m
           \<and> CHR 0x0A \<notin> set g \<and> (nl = [] \<or> nl = [CHR 0x0A]) \<and> b64decode rt g = Some bs"
    by blast
next
  assume "\<exists>m g nl. s = ''data:'' @ m @ '';base64,'' @ g @ nl \<and> m \<noteq> [] \<and> CHR '';'' \<notin> set m
           \<and> CHR 0x0A \<notin> set g \<and> (nl = [] \<or> nl = [CHR 0x0A]) \<and> b64decode rt g = Some bs"
  then obtain m g nl where a: "s = ''data:'' @ m @ '';base64,'' @ g @ nl" "m \<noteq> []"
      "CHR '';'' \<notin> set m" "CHR 0x0A \<notin> set g" "nl = [] \<or> nl = [CHR 0x0A]"
      "b64decode rt g = Some bs"
    by blast
  have "match_data_uri s = Some g"
    unfolding a(1) using a(2,3,4,5) by (rule match_data_uri_accepts)
  then show "parse_data_uri rt (PStr s) = Inr bs"
    using a(6) by (simp add: parse_data_uri_def)
qed

lemma charset_uri: "is_data_uri demo_runtime ''data:text/plain;charset=utf-8;base64,aGk=''"
  by (simp add: is_data_uri_def strip_prefix_def demo_runtime_def upt_conv_Cons)

lemma charset_uri_rejected:
  "match_data_uri ''data:text/plain;charset=utf-8;base64,aGk='' = None"
  by (simp add: match_data_uri_def strip_prefix_def)

lemma newline_uri:
  "is_data_uri lenient_runtime (''data:a;base64,aG'' @ [CHR 0x0A] @ ''k='')"
  by (simp add: is_data_uri_def strip_prefix_def lenient_runtime_def upt_conv_Cons)

lemma newline_uri_rejected:
  "match_data_uri (''data:a;base64,aG'' @ [CHR 0x0A] @ ''k='') = None"
  by (simp add: match_data_uri_def strip_prefix_def)

text \<open>
  Claim C6, as stated, fails in its second half. Each of these three attachments carries
  a data URI in the glossary's sense, with a payload that decodes to \<open>hi\<close>, and each is
  dropped, so that only the four fixed files are in the list. In the first the media type
  has a parameter, \<open>data:text/plain;charset=utf-8;base64,aGk=\<close>, but the pattern of
  \<open>_parse_data_uri\<close> wants \<open>;base64,\<close> right after the first \<open>;\<close>-free stretch. In
  the second the payload is broken over two lines, which the decoder allows but the
  pattern's \<open>.\<close> does not. The third has no \<open>name\<close>.
\<close>

theorem charset_data_uri_dropped_counterexample:
  "is_data_uri demo_runtime ''data:text/plain;charset=utf-8;base64,aGk=''
   \<and> b64decode demo_runtime ''aGk='' = Some ''hi''
   \<and> build_files demo_runtime 2025 (PStr ''octo'')
       (PList [PDict [(''name'', PStr ''h.txt''),
                      (''url'', PStr ''data:text/plain;charset=utf-8;base64,aGk='')]])
     = Inr (fixed_files 2025 (PStr ''octo''))
   \<and> is_data_uri lenient_runtime (''data:a;base64,aG'' @ [CHR 0x0A] @ ''k='')
   \<and> b64decode lenient_runtime (''aG'' @ [CHR 0x0A] @ ''k='') = Some ''hi''
   \<and> build_files lenient_runtime 2025 (PStr ''octo'')
       (PList [PDict [(''name'', PStr ''h.txt''),
                      (''url'', PStr (''data:a;base64,aG'' @ [CHR 0x0A] @ ''k=''))]])
     = Inr (fixed_files 2025 (PStr ''octo''))
   \<and> is_data_uri demo_runtime ''data:text/plain;base64,aGk=''
   \<and> build_files demo_runtime 2025 (PStr ''octo'')
       (PList [PDict [(''url'', PStr ''data:text/plain;base64,aGk='')]])
     = Inr (fixed_files 2025 (PStr ''octo''))"
proof -
  have 1: "build_files demo_runtime 2025 (PStr ''octo'')
       (PList [PDict [(''name'', PStr ''h.txt''),
                      (''url'', PStr ''data:text/plain;charset=utf-8;base64,aGk='')]])
     = Inr (fixed_files 2025 (PStr ''octo''))"
    by (simp add: build_files_def bind_r_def decode_attachment_def parse_data_uri_def
        charset_uri_rejected)
  have 2: "b64decode demo_runtime ''aGk='' = Some ''hi''"
    by (simp add: demo_runtime_def)
  have 3: "build_files lenient_runtime 2025 (PStr ''octo'')
       (PList [PDict [(''name'', PStr ''h.txt''),
                      (''url'', PStr (''data:a;base64,aG'' @ [CHR 0x0A] @ ''k=''))]])
     = Inr (fixed_files 2025 (PStr ''octo''))"
    using newline_uri_rejected
    by (simp add: build_files_def bind_r_def decode_attachment_def parse_data_uri_def)
  have 4: "b64decode lenient_runtime (''aG'' @ [CHR 0x0A] @ ''k='') = Some ''hi''"
    by (simp add: lenient_runtime_def)
  have 5: "is_data_uri demo_runtime ''data:text/plain;base64,aGk=''"
    by (simp add: is_data_uri_def strip_prefix_def demo_runtime_def upt_conv_Cons)
  have 6: "build_files demo_runtime 2025 (PStr ''octo'')
       (PList [PDict [(''url'', PStr ''data:text/plain;base64,aGk='')]])
     = Inr (fixed_files 2025 (PStr ''octo''))"
    by (simp add: build_files_def bind_r_def decode_attachment_def)
  from charset_uri 1 2 newline_uri 3 4 5 6 show ?thesis by (intro conjI)
qed

lemma put_files_all_ok_trace:
  assumes "\<forall>i<length files. \<exists>s. write_result w owner repo files tr i = Inr s"
  shows "snd (put_files w owner repo files lc tr) = tr @ writes owner repo files"
  using put_files_all_ok [OF assms, of lc] by auto

lemma accepted_data_uri_parse:
  "accepted_data_uri rt v bs = (parse_data_uri rt v = Inr bs)"
proof (cases v)
  case (PStr s)
  have "accepted_data_uri rt (PStr s) bs
          = (\<exists>m g nl. s = ''data:'' @ m @ '';base64,'' @ g @ nl \<and> m \<noteq> []
               \<and> CHR '';'' \<notin> set m \<and> CHR 0x0A \<notin> set g \<and> (nl = [] \<or> nl = [CHR 0x0A])
               \<and> b64decode rt g = Some bs)"
    unfolding accepted_data_uri_def pyval.inject ..
  then show ?thesis unfolding PStr parse_data_uri_form .
qed (simp_all add: accepted_data_uri_def parse_data_uri_def)

lemma decode_named_attachment:
  assumes "map_of kv ''name'' = Some n" and "map_of kv ''url'' = Some v"
    and "accepted_data_uri rt v bs"
  shows "decode_attachment rt (PDict kv) = Inr (n, Decoded bs)"
proof -
  have "parse_data_uri rt v = Inr bs" using assms(3) unfolding accepted_data_uri_parse .
  then show ?thesis using assms(1,2) by (simp add: decode_attachment_def bind_r_def)
qed

lemma refused_url:
  assumes "\<forall>bs. \<not> accepted_data_uri rt u bs"
  shows "\<exists>e. parse_data_uri rt u = Inl e"
proof (cases "parse_data_uri rt u")
  case (Inl e)
  then show ?thesis by blast
next
  case (Inr bs)
  then have "accepted_data_uri rt u bs" unfolding accepted_data_uri_parse .
  then show ?thesis using assms by blast
qed

text \<open>
  Claim C6, amended. Call a url accepted when it is a str of the form
  \<open>data:<type>;base64,<payload>\<close>, possibly ended by one newline, with a non-empty type
  free of \<open>;\<close> and a payload free of newlines that \<open>b64decode\<close> accepts; these are exactly
  the urls \<open>_parse_data_uri\<close> decodes. An attachment whose \<open>url\<close> is not accepted is
  dropped without a trace: the file list, and the handler's whole result and requests, are
  what they would be without that attachment. The list still holds the four fixed files
  and every attachment that has a \<open>name\<close> and an accepted \<open>url\<close>, and when the platform
  accepts the writes all of them are written.
\<close>

theorem undecodable_attachment_dropped:
  assumes "py_getitem att ''url'' = Inr u" and "\<forall>bs. \<not> accepted_data_uri rt u bs"
  shows "build_files rt year owner (PList (pre @ [att] @ post))
           = Inr (fixed_files year owner @ decoded_attachments rt (pre @ post))
       \<and> deploy rt cfg w year (f\<lparr>attachments := PList (pre @ [att] @ post)\<rparr>) tr
           = deploy rt cfg w year (f\<lparr>attachments := PList (pre @ post)\<rparr>) tr
       \<and> (\<forall>kv n v bs. PDict kv \<in> set (pre @ post) \<and> map_of kv ''name'' = Some n
               \<and> map_of kv ''url'' = Some v \<and> accepted_data_uri rt v bs
             \<longrightarrow> (n, Decoded bs) \<in> set (decoded_attachments rt (pre @ post)))
       \<and> ((\<forall>i<length (fixed_files year owner @ decoded_attachments rt (pre @ post)).
              \<exists>s. write_result w owner repo
                     (fixed_files year owner @ decoded_attachments rt (pre @ post)) tr i = Inr s)
           \<longrightarrow> snd (put_files w owner repo
                      (fixed_files year owner @ decoded_attachments rt (pre @ post)) lc tr)
                 = tr @ writes owner repo
                      (fixed_files year owner @ decoded_attachments rt (pre @ post)))
       \<and> accepted_data_uri rt v' bs' = (parse_data_uri rt v' = Inr bs')"
proof -
  obtain e where e: "parse_data_uri rt u = Inl e"
    using refused_url [OF assms(2)] by blast
  have d: "decoded_attachments rt (pre @ [att] @ post) = decoded_attachments rt (pre @ post)"
    using assms(1) e by (rule decoded_attachments_drop)
  have 1: "build_files rt year owner (PList (pre @ [att] @ post))
           = Inr (fixed_files year owner @ decoded_attachments rt (pre @ post))"
    for owner
    using d by (simp add: build_files_list)
  have 2: "deploy rt cfg w year (f\<lparr>attachments := PList (pre @ [att] @ post)\<rparr>) tr
           = deploy rt cfg w year (f\<lparr>attachments := PList (pre @ post)\<rparr>) tr"
    using d by (intro deploy_attachments_cong) (simp add: build_files_list)
  have 3: "\<forall>kv n v bs. PDict kv \<in> set (pre @ post) \<and> map_of kv ''name'' = Some n
               \<and> map_of kv ''url'' = Some v \<and> accepted_data_uri rt v bs
             \<longrightarrow> (n, Decoded bs) \<in> set (decoded_attachments rt (pre @ post))"
  proof (intro allI impI)
    fix kv n v bs
    assume a: "PDict kv \<in> set (pre @ post) \<and> map_of kv ''name'' = Some n
               \<and> map_of kv ''url'' = Some v \<and> accepted_data_uri rt v bs"
    then have "decode_attachment rt (PDict kv) = Inr (n, Decoded bs)"
      by (intro decode_named_attachment [of kv n v rt bs]) simp_all
    with a show "(n, Decoded bs) \<in> set (decoded_attachments rt (pre @ post))"
      by (intro decoded_attachments_member [of "PDict kv"]) simp_all
  qed
  have 4: "(\<forall>i<length (fixed_files year owner @ decoded_attachments rt (pre @ post)).
              \<exists>s. write_result w owner repo
                     (fixed_files year owner @ decoded_attachments rt (pre @ post)) tr i = Inr s)
           \<longrightarrow> snd (put_files w owner repo
                      (fixed_files year owner @ decoded_attachments rt (pre @ post)) lc tr)
                 = tr @ writes owner repo
                      (fixed_files year owner @ decoded_attachments rt (pre @ post))"
    using put_files_all_ok_trace by blast
  have 5: "accepted_data_uri rt v' bs' = (parse_data_uri rt v' = Inr bs')"
    by (rule accepted_data_uri_parse)
  from 1 2 3 4 5 show ?thesis by (intro conjI)
qed

lemma not_a_data_uri: "parse_data_uri demo_runtime (PStr ''not-a-data-uri'') = Inl ValueError"
  by (simp add: parse_data_uri_def match_data_uri_def strip_prefix_def)

lemma hi_uri:
  "decode_attachment demo_runtime
     (PDict [(''name'', PStr ''h.txt''), (''url'', PStr ''data:text/plain;base64,aGk='')])
   = Inr (PStr ''h.txt'', Decoded ''hi'')"
  by (simp add: decode_attachment_def bind_r_def parse_data_uri_def match_data_uri_def
      strip_prefix_def demo_runtime_def)

theorem undecodable_attachment_dropped_witness:
  "build_files demo_runtime 2025 (PStr ''octo'')
     (PList [PDict [(''name'', PStr ''x.txt''), (''url'', PStr ''not-a-data-uri'')],
             PDict [(''name'', PStr ''h.txt''), (''url'', PStr ''data:text/plain;base64,aGk='')]])
   = Inr (fixed_files 2025 (PStr ''octo'') @ [(PStr ''h.txt'', Decoded ''hi'')])
   \<and> build_files demo_runtime 2025 (PStr ''octo'')
     (PList [PDict [(''name'', PStr ''x.txt''), (''url'', PStr ''not-a-data-uri'')]])
   = Inr (fixed_files 2025 (PStr ''octo''))"
proof -
  let ?bad = "PDict [(''name'', PStr ''x.txt''), (''url'', PStr ''not-a-data-uri'')]"
  let ?good = "PDict [(''name'', PStr ''h.txt''), (''url'', PStr ''data:text/plain;base64,aGk='')]"
  have u: "py_getitem ?bad ''url'' = Inr (PStr ''not-a-data-uri'')" by simp
  have r: "\<forall>bs. \<not> accepted_data_uri demo_runtime (PStr ''not-a-data-uri'') bs"
    unfolding accepted_data_uri_parse not_a_data_uri by simp
  from undecodable_attachment_dropped [OF u r, where pre = "[]" and post = "[?good]"
         and year = 2025 and owner = "PStr ''octo''"]
       undecodable_attachment_dropped [OF u r, where pre = "[]" and post = "[]"
         and year = 2025 and owner = "PStr ''octo''"]
  show ?thesis by (simp add: decoded_attachments_def hi_uri)
qed

section \<open>The response when the callback is not delivered\<close>

lemma posted_append: "posted (tr @ tr') = posted tr @ posted tr'"
  by (simp add: posted_def)

lemma posted_Cons:
  "posted (e # tr)
     = (case e of Call (PostCallback u p) \<Rightarrow> [(u, p)] | _ \<Rightarrow> []) @ posted tr"
  by (simp add: posted_def)

lemma posted_gh_owner: "posted (snd (gh_owner cfg w tr)) = posted tr"
  by (simp add: gh_owner_def request_def posted_def split: outcome.splits)

lemma posted_gh_create_repo: "posted (snd (gh_create_repo w owner repo tr)) = posted tr"
  by (simp add: gh_create_repo_def request_def posted_def split: outcome.splits)

lemma posted_put_files: "posted (snd (put_files w owner repo files lc tr)) = posted tr"
proof (induction files arbitrary: lc tr)
  case Nil
  show ?case by simp
next
  case (Cons f files)
  obtain p c where f: "f = (p, c)" by (cases f)
  obtain res where g: "gh_put_file w owner repo p c tr = (res, tr @ [Call (PutFile owner repo p c)])"
    using gh_put_file_trace [of w owner repo p c tr]
    by (cases "gh_put_file w owner repo p c tr") simp
  show ?case
  proof (cases res)
    case (Inl e)
    then show ?thesis using g by (simp add: f posted_def)
  next
    case (Inr sha)
    then show ?thesis using g Cons.IH [of sha "tr @ [Call (PutFile owner repo p c)]"]
      by (simp add: f posted_def)
  qed
qed

lemma posted_poll_pages: "posted (snd (poll_pages w owner repo n pu tr)) = posted tr"
proof -
  have fp: "posted (failed_polls owner repo k) = []" for k
    by (induction k) (simp_all add: posted_def)
  from poll_bound [of n w owner repo pu tr] show ?thesis
    by (auto simp: posted_append fp) (simp add: posted_def)
qed

lemma posted_failed_attempts: "posted (failed_attempts url p k d) = replicate k (url, p)"
  by (induction k arbitrary: d) (simp_all add: posted_def)

lemma posted_callback: "posted [Call (PostCallback url p)] = [(url, p)]"
  by (simp add: posted_def)

lemma posted_post_loop:
  "set (posted (snd (post_loop w url p n d tr))) \<subseteq> set (posted tr) \<union> {(url, p)}"
proof -
  from post_loop_cases [of n w tr url p d] obtain k where
    "post_loop w url p n d tr
       = (True, tr @ failed_attempts url p k d @ [Call (PostCallback url p)])
     \<or> post_loop w url p n d tr = (False, tr @ failed_attempts url p n d)"
    by (auto split: if_splits)
  then show ?thesis
  proof
    assume "post_loop w url p n d tr
       = (True, tr @ failed_attempts url p k d @ [Call (PostCallback url p)])"
    then show ?thesis
      by (simp add: posted_append posted_failed_attempts posted_callback) auto
  next
    assume "post_loop w url p n d tr = (False, tr @ failed_attempts url p n d)"
    then show ?thesis
      by (simp add: posted_append posted_failed_attempts) auto
  qed
qed

lemma report_result:
  "fst (report rt w f owner repo lc pu tr)
     = Inr (PDict ((''ok'', PBool True) # make_payload rt f owner repo lc pu))"
  by (simp add: report_def Let_def split: prod.splits)

lemma report_posted:
  "set (posted (snd (report rt w f owner repo lc pu tr)))
     \<subseteq> set (posted tr) \<union> {(evaluation_url f, PDict (make_payload rt f owner repo lc pu))}"
  using posted_post_loop [of w "evaluation_url f" "PDict (make_payload rt f owner repo lc pu)" 6 1 tr]
  by (auto simp: report_def Let_def post_with_backoff_def split: prod.splits)

lemma publish_posted:
  assumes "(u, p) \<in> set (posted (snd (publish rt w year f owner repo tr)))"
    and "posted tr = []"
  shows "\<exists>items. p = PDict items
           \<and> fst (publish rt w year f owner repo tr) = Inr (PDict ((''ok'', PBool True) # items))"
proof (cases "build_files rt year owner (attachments f)")
  case (Inl e)
  then show ?thesis using assms by (simp add: publish_def bind_io_def return_io_def)
next
  case (Inr files)
  obtain r1 t1 where p1: "put_files w owner repo files (PStr []) tr = (r1, t1)"
    by (cases "put_files w owner repo files (PStr []) tr")
  have q1: "posted t1 = []"
    using posted_put_files [of w owner repo files "PStr []" tr] p1 assms(2) by simp
  show ?thesis
  proof (cases r1)
    case (Inl e)
    then show ?thesis using assms Inr p1 q1
      by (simp add: publish_def bind_io_def return_io_def)
  next
    case sha: (Inr sha)
    obtain r2 t2 where p2: "poll_pages w owner repo 12 PNone t1 = (r2, t2)"
      by (cases "poll_pages w owner repo 12 PNone t1")
    have q2: "posted t2 = []"
      using posted_poll_pages [of w owner repo 12 PNone t1] p2 q1 by simp
    show ?thesis
    proof (cases r2)
      case (Inl e)
      then show ?thesis using assms Inr p1 sha p2 q2
        by (simp add: publish_def bind_io_def return_io_def)
    next
      case pu: (Inr pu)
      have pub: "publish rt w year f owner repo tr = report rt w f owner repo sha pu t2"
        using Inr p1 sha p2 pu by (simp add: publish_def bind_io_def return_io_def)
      have "(u, p) \<in> {(evaluation_url f, PDict (make_payload rt f owner repo sha pu))}"
        using assms(1) report_posted [of rt w f owner repo sha pu t2] q2 unfolding pub by auto
      then show ?thesis unfolding pub by (simp add: report_result)
    qed
  qed
qed

lemma handle_posted:
  assumes "(u, p) \<in> set (posted (snd (handle rt cfg w year body)))"
  shows "\<exists>items. p = PDict items
           \<and> fst (handle rt cfg w year body) = Inr (PDict ((''ok'', PBool True) # items))"
proof (cases "validate cfg body")
  case (Inl e)
  then show ?thesis using assms by (simp add: handle_def posted_def)
next
  case (Inr f)
  obtain r1 t1 where p1: "gh_owner cfg w [] = (r1, t1)"
    by (cases "gh_owner cfg w []")
  have q1: "posted t1 = []"
    using posted_gh_owner [of cfg w "[]"] p1 by (simp add: posted_def)
  show ?thesis
  proof (cases r1)
    case (Inl e)
    then show ?thesis using assms Inr p1 q1
      by (simp add: handle_def deploy_def bind_io_def return_io_def)
  next
    case owner: (Inr owner)
    show ?thesis
    proof (cases "repo_of (task f)")
      case (Inl e)
      then show ?thesis using assms Inr p1 owner q1
        by (simp add: handle_def deploy_def bind_io_def return_io_def)
    next
      case repo: (Inr repo)
      obtain r2 t2 where p2: "gh_create_repo w owner repo t1 = (r2, t2)"
        by (cases "gh_create_repo w owner repo t1")
      have q2: "posted t2 = []"
        using posted_gh_create_repo [of w owner repo t1] p2 q1 by simp
      show ?thesis
      proof (cases r2)
        case (Inl e)
        then show ?thesis using assms Inr p1 owner repo p2 q2
          by (simp add: handle_def deploy_def bind_io_def return_io_def)
      next
        case ok: (Inr x)
        have h: "handle rt cfg w year body = publish rt w year f owner repo t2"
          using Inr p1 owner repo p2 ok
          by (simp add: handle_def deploy_def bind_io_def return_io_def)
        show ?thesis using assms publish_posted [OF _ q2] unfolding h by blast
      qed
    qed
  qed
qed

lemma handle_demo_nan:
  "handle demo_runtime demo_config (demo_world 1 7) 2025
     (Some (PDict [(''secret'', PStr ''s3cret''), (''email'', PFloat NaN),
                      (''task'', PStr ''a/b''), (''nonce'', PStr ''n1''),
                      (''evaluation_url'', PStr ''http://cb'')]))
   = (Inr (PDict
        [(''ok'', PBool True), (''email'', PFloat NaN), (''task'', PStr ''a/b''),
         (''round'', PInt 1), (''nonce'', PStr ''n1''),
         (''repo_url'', PStr ''https://github.com/octo/a-b''),
         (''commit_sha'', PStr ''index.html''),
         (''pages_url'', PStr ''https://x.github.io/y/'')]),
      [Call (CreateRepo ''a-b''),
       Call (PutFile (PStr ''octo'') ''a-b'' (PStr ''LICENSE'') (MIT_TEXT 2025 (PStr ''octo''))),
       Call (PutFile (PStr ''octo'') ''a-b'' (PStr ''README.md'') README_MD),
       Call (PutFile (PStr ''octo'') ''a-b'' (PStr ''.github/workflows/pages.yml'') PAGES_WORKFLOW),
       Call (PutFile (PStr ''octo'') ''a-b'' (PStr ''index.html'') INDEX_HTML),
       Call (GetPages (PStr ''octo'') ''a-b'')]
      @ failed_attempts (PStr ''http://cb'')
          (PDict [(''email'', PFloat NaN), (''task'', PStr ''a/b''),
                  (''round'', PInt 1), (''nonce'', PStr ''n1''),
                  (''repo_url'', PStr ''https://github.com/octo/a-b''),
                  (''commit_sha'', PStr ''index.html''),
                  (''pages_url'', PStr ''https://x.github.io/y/'')]) 6 1)"
  by code_simp

text \<open>
  Claim C8, as stated, fails in one respect. The request below has the right secret and
  all four required fields, and its \<open>email\<close> is the float \<open>NaN\<close>, which the request
  decoder accepts and which is truthy. No callback attempt is answered with a 200. The
  handler returns the body with the payload, but the framework cannot serialise a
  \<open>NaN\<close>, and the caller gets a 500, not a success response.
\<close>

theorem nan_payload_not_sent_counterexample:
  "truthy (PFloat NaN)
   \<and> fst (handle demo_runtime demo_config (demo_world 1 7) 2025
        (Some (PDict [(''secret'', PStr ''s3cret''), (''email'', PFloat NaN),
                      (''task'', PStr ''a/b''), (''nonce'', PStr ''n1''),
                      (''evaluation_url'', PStr ''http://cb'')])))
     = Inr (PDict
        [(''ok'', PBool True), (''email'', PFloat NaN), (''task'', PStr ''a/b''),
         (''round'', PInt 1), (''nonce'', PStr ''n1''),
         (''repo_url'', PStr ''https://github.com/octo/a-b''),
         (''commit_sha'', PStr ''index.html''),
         (''pages_url'', PStr ''https://x.github.io/y/'')])
   \<and> response_status demo_runtime (fst (handle demo_runtime demo_config (demo_world 1 7) 2025
        (Some (PDict [(''secret'', PStr ''s3cret''), (''email'', PFloat NaN),
                      (''task'', PStr ''a/b''), (''nonce'', PStr ''n1''),
                      (''evaluation_url'', PStr ''http://cb'')])))) = 500"
  unfolding handle_demo_nan by simp

text \<open>
  Claim C8, amended. \<open>report\<close> (lines 216 to 226) always returns the body
  \<open>{"ok": True, **payload}\<close>, whatever \<open>_post_with_backoff\<close> returned, and the status of
  the response depends on that body alone: 200 when the framework can encode it and write
  it as JSON, 500 when not. When no attempt is answered with a 200, the six attempts and
  their sleeps are made and the return is that same body. And for the handler as a whole:
  whenever it posted anything to a callback URL, what it posted is the payload, its return
  is the body with that payload, and its response is the 200 when that body can be encoded
  and written.
\<close>

theorem callback_failure_absorbed:
  "fst (report rt w f owner repo lc pu tr)
     = Inr (PDict ((''ok'', PBool True) # make_payload rt f owner repo lc pu))
   \<and> response_status rt (fst (report rt w f owner repo lc pu tr))
     = (if encodes rt (PDict ((''ok'', PBool True) # make_payload rt f owner repo lc pu))
           \<and> serialisable (PDict (make_payload rt f owner repo lc pu))
        then 200 else 500)
   \<and> ((\<forall>j<6. \<not> answers_200 w
                  (tr @ failed_attempts (evaluation_url f)
                          (PDict (make_payload rt f owner repo lc pu)) j 1)
                  (evaluation_url f) (PDict (make_payload rt f owner repo lc pu)))
       \<longrightarrow> report rt w f owner repo lc pu tr
             = (Inr (PDict ((''ok'', PBool True) # make_payload rt f owner repo lc pu)),
                tr @ failed_attempts (evaluation_url f)
                       (PDict (make_payload rt f owner repo lc pu)) 6 1))
   \<and> ((u, p) \<in> set (posted (snd (handle rt cfg w year body)))
       \<longrightarrow> (\<exists>items. p = PDict items
               \<and> fst (handle rt cfg w year body) = Inr (PDict ((''ok'', PBool True) # items))
               \<and> response_status rt (fst (handle rt cfg w year body))
                   = (if encodes rt (PDict ((''ok'', PBool True) # items)) \<and> serialisable p
                      then 200 else 500)))"
proof (intro conjI impI)
  show "fst (report rt w f owner repo lc pu tr)
     = Inr (PDict ((''ok'', PBool True) # make_payload rt f owner repo lc pu))"
    by (rule report_result)
next
  show "response_status rt (fst (report rt w f owner repo lc pu tr))
     = (if encodes rt (PDict ((''ok'', PBool True) # make_payload rt f owner repo lc pu))
           \<and> serialisable (PDict (make_payload rt f owner repo lc pu))
        then 200 else 500)"
    by (simp add: report_result)
next
  let ?u = "evaluation_url f" and ?p = "PDict (make_payload rt f owner repo lc pu)"
  assume "\<forall>j<6. \<not> answers_200 w (tr @ failed_attempts ?u ?p j 1) ?u ?p"
  then have "post_with_backoff w ?u ?p tr = (False, tr @ failed_attempts ?u ?p 6 1)"
    unfolding post_with_backoff_def by (rule post_loop_failure)
  then show "report rt w f owner repo lc pu tr
             = (Inr (PDict ((''ok'', PBool True) # make_payload rt f owner repo lc pu)),
                tr @ failed_attempts ?u ?p 6 1)"
    by (simp add: report_def Let_def)
next
  assume a: "(u, p) \<in> set (posted (snd (handle rt cfg w year body)))"
  from handle_posted [OF a] obtain items where i: "p = PDict items"
    "fst (handle rt cfg w year body) = Inr (PDict ((''ok'', PBool True) # items))"
    by (elim exE conjE)
  have "response_status rt (fst (handle rt cfg w year body))
          = (if encodes rt (PDict ((''ok'', PBool True) # items)) \<and> serialisable p
             then 200 else 500)"
    by (simp add: i)
  with i show "\<exists>items. p = PDict items
               \<and> fst (handle rt cfg w year body) = Inr (PDict ((''ok'', PBool True) # items))
               \<and> response_status rt (fst (handle rt cfg w year body))
                   = (if encodes rt (PDict ((''ok'', PBool True) # items)) \<and> serialisable p
                      then 200 else 500)"
    by (intro exI [of _ items] conjI)
qed

lemma handle_demo_never_delivered:
  "handle demo_runtime demo_config (demo_world 1 7) 2025 (Some (demo_request (PList [])))
   = (Inr (PDict
        [(''ok'', PBool True), (''email'', PStr ''a@b.c''), (''task'', PStr ''a/b''),
         (''round'', PInt 1), (''nonce'', PStr ''n1''),
         (''repo_url'', PStr ''https://github.com/octo/a-b''),
         (''commit_sha'', PStr ''index.html''),
         (''pages_url'', PStr ''https://x.github.io/y/'')]),
      [Call (CreateRepo ''a-b''),
       Call (PutFile (PStr ''octo'') ''a-b'' (PStr ''LICENSE'') (MIT_TEXT 2025 (PStr ''octo''))),
       Call (PutFile (PStr ''octo'') ''a-b'' (PStr ''README.md'') README_MD),
       Call (PutFile (PStr ''octo'') ''a-b'' (PStr ''.github/workflows/pages.yml'') PAGES_WORKFLOW),
       Call (PutFile (PStr ''octo'') ''a-b'' (PStr ''index.html'') INDEX_HTML),
       Call (GetPages (PStr ''octo'') ''a-b'')]
      @ failed_attempts (PStr ''http://cb'')
          (PDict [(''email'', PStr ''a@b.c''), (''task'', PStr ''a/b''),
                  (''round'', PInt 1), (''nonce'', PStr ''n1''),
                  (''repo_url'', PStr ''https://github.com/octo/a-b''),
                  (''commit_sha'', PStr ''index.html''),
                  (''pages_url'', PStr ''https://x.github.io/y/'')]) 6 1)"
  by code_simp

theorem callback_failure_absorbed_witness:
  "(PStr ''http://cb'',
    PDict [(''email'', PStr ''a@b.c''), (''task'', PStr ''a/b''),
           (''round'', PInt 1), (''nonce'', PStr ''n1''),
           (''repo_url'', PStr ''https://github.com/octo/a-b''),
           (''commit_sha'', PStr ''index.html''),
           (''pages_url'', PStr ''https://x.github.io/y/'')])
     \<in> set (posted (snd (handle demo_runtime demo_config (demo_world 1 7) 2025
                           (Some (demo_request (PList []))))))
   \<and> serialisable
        (PDict [(''email'', PStr ''a@b.c''), (''task'', PStr ''a/b''),
           (''round'', PInt 1), (''nonce'', PStr ''n1''),
           (''repo_url'', PStr ''https://github.com/octo/a-b''),
           (''commit_sha'', PStr ''index.html''),
           (''pages_url'', PStr ''https://x.github.io/y/'')])
   \<and> fst (handle demo_runtime demo_config (demo_world 1 7) 2025
            (Some (demo_request (PList []))))
     = Inr (PDict
        [(''ok'', PBool True), (''email'', PStr ''a@b.c''), (''task'', PStr ''a/b''),
         (''round'', PInt 1), (''nonce'', PStr ''n1''),
         (''repo_url'', PStr ''https://github.com/octo/a-b''),
         (''commit_sha'', PStr ''index.html''),
         (''pages_url'', PStr ''https://x.github.io/y/'')])
   \<and> response_status demo_runtime (fst (handle demo_runtime demo_config (demo_world 1 7) 2025
                              (Some (demo_request (PList []))))) = 200"
proof -
  let ?h = "handle demo_runtime demo_config (demo_world 1 7) 2025
              (Some (demo_request (PList [])))"
  let ?p = "PDict [(''email'', PStr ''a@b.c''), (''task'', PStr ''a/b''),
           (''round'', PInt 1), (''nonce'', PStr ''n1''),
           (''repo_url'', PStr ''https://github.com/octo/a-b''),
           (''commit_sha'', PStr ''index.html''),
           (''pages_url'', PStr ''https://x.github.io/y/'')]"
  have m: "(PStr ''http://cb'', ?p) \<in> set (posted (snd ?h))"
    unfolding handle_demo_never_delivered
    by (simp add: posted_Cons posted_failed_attempts)
  have s: "serialisable ?p"
    using small_int_serialisable [of 1] by simp
  have e: "encodes demo_runtime v" for v
    by (simp add: demo_runtime_def)
  from callback_failure_absorbed
         [where u = "PStr ''http://cb''" and p = ?p and rt = demo_runtime and cfg = demo_config
            and w = "demo_world 1 7" and year = 2025 and body = "Some (demo_request (PList []))"]
       m s e
  show ?thesis by auto
qed

end
